theory Spec2Isabelle
  imports Main
begin

section \<open>JSON values and the Python operations the cache applies to them\<close>

text \<open>
  The cache module (\<^verbatim>\<open>src/cache_fixed.py\<close>) keeps three JSON documents under
  \<^verbatim>\<open>ROOT_DIR/.mp\<close>: the accounts of two providers and the affiliate products. Its
  functions are modelled one by one, under their names (without the leading underscore
  of the private ones): a function that reads or writes files takes the file system and
  returns it with its result, and an exception that leaves a function is a result
  \<open>Inl\<close>.

  A value produced by \<^verbatim>\<open>json.load\<close> is a \<open>json\<close>; a Python \<^verbatim>\<open>dict\<close> with string keys is
  an association list in insertion order, read at the first entry of a key. Numbers are
  the integers (floating point values are outside the model).
\<close>

datatype json =
    JNull
  | JBool bool
  | JNum int
  | JStr string
  | JArr "json list"
  | JObj "(string \<times> json) list"

type_synonym dict = "(string \<times> json) list"

text \<open>The exceptions that can leave a function of the module.\<close>

datatype error = ValueError | OSError | TypeError | AttributeError

text \<open>
  Python's \<^verbatim>\<open>==\<close> on JSON values: \<^verbatim>\<open>True == 1\<close> and \<^verbatim>\<open>False == 0\<close> hold, lists are
  compared element by element, dictionaries key by key whatever the order.
\<close>

primrec py_eq :: "json \<Rightarrow> json \<Rightarrow> bool" where
  "py_eq JNull y = (y = JNull)"
| "py_eq (JBool b) y =
     (case y of JBool c \<Rightarrow> b = c | JNum n \<Rightarrow> n = (if b then 1 else 0) | _ \<Rightarrow> False)"
| "py_eq (JNum m) y =
     (case y of JNum n \<Rightarrow> m = n | JBool c \<Rightarrow> m = (if c then 1 else 0) | _ \<Rightarrow> False)"
| "py_eq (JStr s) y = (y = JStr s)"
| "py_eq (JArr xs) y =
     (case y of JArr ys \<Rightarrow> list_all2 (\<lambda>f v. f v) (map py_eq xs) ys | _ \<Rightarrow> False)"
| "py_eq (JObj kvs) y =
     (case y of
        JObj b \<Rightarrow>
          length kvs = length b \<and>
          list_all
            (\<lambda>k. case map_of (map (map_prod id py_eq) kvs) k of
                   None \<Rightarrow> False
                 | Some f \<Rightarrow> (case map_of b k of None \<Rightarrow> False | Some v \<Rightarrow> f v))
            (map fst kvs)
      | _ \<Rightarrow> False)"

text \<open>\<^verbatim>\<open>x in xs\<close> on a list: some element equals \<open>x\<close>.\<close>

definition py_in :: "json \<Rightarrow> json list \<Rightarrow> bool" where
  "py_in x xs = list_ex (py_eq x) xs"

text \<open>\<^verbatim>\<open>d.get(k, default)\<close>: only a dictionary has the method.\<close>

definition py_get :: "json \<Rightarrow> string \<Rightarrow> json \<Rightarrow> error + json" where
  "py_get d k dflt =
     (case d of
        JObj kvs \<Rightarrow> Inr (case map_of kvs k of None \<Rightarrow> dflt | Some v \<Rightarrow> v)
      | _ \<Rightarrow> Inl AttributeError)"

text \<open>\<^verbatim>\<open>data.get(k, default)\<close> where \<open>data\<close> is known to be a dictionary.\<close>

definition dict_get :: "dict \<Rightarrow> string \<Rightarrow> json \<Rightarrow> json" where
  "dict_get d k dflt = (case map_of d k of None \<Rightarrow> dflt | Some v \<Rightarrow> v)"

text \<open>\<^verbatim>\<open>d[k] = v\<close>: an existing key keeps its position, a new key goes last.\<close>

fun dict_set :: "dict \<Rightarrow> string \<Rightarrow> json \<Rightarrow> dict" where
  "dict_set [] k v = [(k, v)]"
| "dict_set ((k', v') # d) k v =
     (if k' = k then (k, v) # d else (k', v') # dict_set d k v)"

text \<open>\<^verbatim>\<open>d.update(updates)\<close>: every item of \<open>updates\<close> is stored in turn.\<close>

definition dict_update :: "dict \<Rightarrow> dict \<Rightarrow> dict" where
  "dict_update d updates = fold (\<lambda>(k, v) acc. dict_set acc k v) updates d"

text \<open>
  Iterating a value (\<^verbatim>\<open>for x in v\<close>): a list gives its elements, a string its
  characters, a dictionary its keys; anything else is not iterable.
\<close>

definition py_iter :: "json \<Rightarrow> error + json list" where
  "py_iter v =
     (case v of
        JArr xs \<Rightarrow> Inr xs
      | JStr s \<Rightarrow> Inr (map (\<lambda>c. JStr [c]) s)
      | JObj kvs \<Rightarrow> Inr (map (\<lambda>(k, _). JStr k) kvs)
      | _ \<Rightarrow> Inl TypeError)"

definition py_len :: "json \<Rightarrow> error + nat" where
  "py_len v =
     (case v of
        JArr xs \<Rightarrow> Inr (length xs)
      | JStr s \<Rightarrow> Inr (length s)
      | JObj kvs \<Rightarrow> Inr (length kvs)
      | _ \<Rightarrow> Inl TypeError)"

text \<open>\<^verbatim>\<open>v.append(x)\<close>: only a list has the method.\<close>

definition py_append :: "json \<Rightarrow> json \<Rightarrow> error + json" where
  "py_append v x = (case v of JArr xs \<Rightarrow> Inr (JArr (xs @ [x])) | _ \<Rightarrow> Inl AttributeError)"

section \<open>Paths\<close>

text \<open>\<^verbatim>\<open>os.path.join(a, b)\<close> and \<^verbatim>\<open>os.path.dirname(p)\<close> of \<^verbatim>\<open>posixpath\<close>.\<close>

definition path_join :: "string \<Rightarrow> string \<Rightarrow> string" where
  "path_join a b =
     (if (case b of [] \<Rightarrow> False | c # _ \<Rightarrow> c = CHR ''/'') then b
      else if a = [] \<or> last a = CHR ''/'' then a @ b
      else a @ ''/'' @ b)"

definition dirname :: "string \<Rightarrow> string" where
  "dirname p =
     (let head = rev (dropWhile (\<lambda>c. c \<noteq> CHR ''/'') (rev p))
      in if head \<noteq> [] \<and> \<not> list_all (\<lambda>c. c = CHR ''/'') head
         then rev (dropWhile (\<lambda>c. c = CHR ''/'') (rev head))
         else head)"

text \<open>\<open>root\<close> stands for \<^verbatim>\<open>config.ROOT_DIR\<close>, which the module imports.\<close>

definition get_cache_path :: "string \<Rightarrow> string" where
  "get_cache_path root = path_join root ''.mp''"

definition get_afm_cache_path :: "string \<Rightarrow> string" where
  "get_afm_cache_path root = path_join (get_cache_path root) ''afm.json''"

definition get_twitter_cache_path :: "string \<Rightarrow> string" where
  "get_twitter_cache_path root = path_join (get_cache_path root) ''twitter.json''"

definition get_youtube_cache_path :: "string \<Rightarrow> string" where
  "get_youtube_cache_path root = path_join (get_cache_path root) ''youtube.json''"

section \<open>The file system\<close>

text \<open>
  A file holds either a JSON text, kept as the value \<^verbatim>\<open>json.load\<close> reads from it, or
  bytes that \<^verbatim>\<open>json.load\<close> rejects. The file system maps a path to what is there: a
  file, a directory, or nothing. An operation changes it only by the calls below, each
  of which replaces or removes the entry of one path.
\<close>

datatype content = Json json | Garbage string

datatype node = File content | Dir

type_synonym fs = "string \<Rightarrow> node option"

text \<open>
  The calls that can fail for reasons outside the program (permissions, a full disk, a
  lock held by another process). An environment says which of them raise \<^verbatim>\<open>OSError\<close>
  during one operation of the store, and which bytes an interrupted \<^verbatim>\<open>json.dump\<close>
  leaves in the file it was writing: a truncated text, which \<^verbatim>\<open>json.load\<close> rejects.
  No operation makes the same call on the same path twice, so one answer for each call
  describes every way an operation can meet failures. Besides, a call fails when the
  file system does not allow it: removing what is not a file, renaming what does not
  exist, opening a directory.
\<close>

datatype syscall =
    Makedirs string
  | OpenW string
  | Dump string
  | OpenR string
  | Remove string
  | Rename string string

record env =
  raises :: "syscall \<Rightarrow> bool"
  leftover :: string

definition os_path_exists :: "fs \<Rightarrow> string \<Rightarrow> bool" where
  "os_path_exists fs p = (fs p \<noteq> None)"

text \<open>\<^verbatim>\<open>os.makedirs(d)\<close> fails when something is at \<open>d\<close>. The parent directories it
  creates on the way are not recorded: nothing looks at them.\<close>

definition os_makedirs :: "env \<Rightarrow> string \<Rightarrow> fs \<Rightarrow> (error + unit) \<times> fs" where
  "os_makedirs e d fs =
     (if raises e (Makedirs d) \<or> fs d \<noteq> None then (Inl OSError, fs)
      else (Inr (), fs(d \<mapsto> Dir)))"

text \<open>\<^verbatim>\<open>with open(p, 'w') as file: json.dump(data, file, ...)\<close>\<close>

definition open_dump :: "env \<Rightarrow> string \<Rightarrow> json \<Rightarrow> fs \<Rightarrow> (error + unit) \<times> fs" where
  "open_dump e p data fs =
     (if raises e (OpenW p) \<or> fs p = Some Dir then (Inl OSError, fs)
      else if raises e (Dump p) then (Inl OSError, fs(p \<mapsto> File (Garbage (leftover e))))
      else (Inr (), fs(p \<mapsto> File (Json data))))"

text \<open>\<^verbatim>\<open>with open(p, 'r') as file: data = json.load(file)\<close>;
  \<^verbatim>\<open>JSONDecodeError\<close> is a \<^verbatim>\<open>ValueError\<close>.\<close>

definition open_load :: "env \<Rightarrow> string \<Rightarrow> fs \<Rightarrow> error + json" where
  "open_load e p fs =
     (if raises e (OpenR p) then Inl OSError
      else case fs p of
             Some (File (Json v)) \<Rightarrow> Inr v
           | Some (File (Garbage _)) \<Rightarrow> Inl ValueError
           | _ \<Rightarrow> Inl OSError)"

definition os_remove :: "env \<Rightarrow> string \<Rightarrow> fs \<Rightarrow> (error + unit) \<times> fs" where
  "os_remove e p fs =
     (if raises e (Remove p) then (Inl OSError, fs)
      else case fs p of
             Some (File _) \<Rightarrow> (Inr (), fs(p := None))
           | _ \<Rightarrow> (Inl OSError, fs))"

text \<open>\<^verbatim>\<open>os.rename(src, dst)\<close>, as on POSIX. The module renames only onto a path where
  nothing is left, so what a platform does with an existing destination plays no part.\<close>

definition os_rename :: "env \<Rightarrow> string \<Rightarrow> string \<Rightarrow> fs \<Rightarrow> (error + unit) \<times> fs" where
  "os_rename e src dst fs =
     (if raises e (Rename src dst) then (Inl OSError, fs)
      else case fs src of
             None \<Rightarrow> (Inl OSError, fs)
           | Some n \<Rightarrow>
               (if fs dst = Some Dir \<and> n \<noteq> Dir then (Inl OSError, fs)
                else (Inr (), (fs(src := None))(dst \<mapsto> n))))"

section \<open>Reading and writing a cache file\<close>

definition ensure_cache_file_exists ::
  "env \<Rightarrow> string \<Rightarrow> dict \<Rightarrow> fs \<Rightarrow> (error + unit) \<times> fs" where
  "ensure_cache_file_exists e cache_path default_structure fs =
     (if \<not> os_path_exists fs cache_path then
        (let cache_dir = dirname cache_path
         in case (if \<not> os_path_exists fs cache_dir then os_makedirs e cache_dir fs
                  else (Inr (), fs)) of
              (Inl err, fs1) \<Rightarrow> (Inl err, fs1)
            | (Inr _, fs1) \<Rightarrow> open_dump e cache_path (JObj default_structure) fs1)
      else (Inr (), fs))"

text \<open>
  \<^verbatim>\<open>_read_cache_file\<close>: the call that creates a missing file is outside the
  \<^verbatim>\<open>try\<close>, so its error leaves the function; every error of the read itself gives
  the default structure, and so does a document that is not a dictionary.
\<close>

definition read_cache_file ::
  "env \<Rightarrow> string \<Rightarrow> dict \<Rightarrow> fs \<Rightarrow> (error + dict) \<times> fs" where
  "read_cache_file e cache_path default_structure fs =
     (case ensure_cache_file_exists e cache_path default_structure fs of
        (Inl err, fs1) \<Rightarrow> (Inl err, fs1)
      | (Inr _, fs1) \<Rightarrow>
          (case open_load e cache_path fs1 of
             Inr (JObj data) \<Rightarrow> (Inr data, fs1)
           | _ \<Rightarrow> (Inr default_structure, fs1)))"

text \<open>The handler of \<^verbatim>\<open>_write_cache_file\<close>: remove the temporary file if it is
  there, ignoring an error of the removal.\<close>

definition cleanup_temp :: "env \<Rightarrow> string \<Rightarrow> fs \<Rightarrow> fs" where
  "cleanup_temp e temp_path fs =
     (if os_path_exists fs temp_path then snd (os_remove e temp_path fs) else fs)"

definition write_cache_file :: "env \<Rightarrow> string \<Rightarrow> dict \<Rightarrow> fs \<Rightarrow> bool \<times> fs" where
  "write_cache_file e cache_path data fs =
     (let temp_path = cache_path @ ''.tmp''
      in case open_dump e temp_path (JObj data) fs of
           (Inl err, fs1) \<Rightarrow> (False, cleanup_temp e temp_path fs1)
         | (Inr _, fs1) \<Rightarrow>
             (case (if os_path_exists fs1 cache_path then os_remove e cache_path fs1
                    else (Inr (), fs1)) of
                (Inl err, fs2) \<Rightarrow> (False, cleanup_temp e temp_path fs2)
              | (Inr _, fs2) \<Rightarrow>
                  (case os_rename e temp_path cache_path fs2 of
                     (Inl err, fs3) \<Rightarrow> (False, cleanup_temp e temp_path fs3)
                   | (Inr _, fs3) \<Rightarrow> (True, fs3))))"

section \<open>The operations on the records of a document\<close>

text \<open>\<^verbatim>\<open>[acc.get('id') for acc in accounts]\<close>, on the elements already iterated.\<close>

fun get_ids :: "json list \<Rightarrow> error + json list" where
  "get_ids [] = Inr []"
| "get_ids (acc # accs) =
     (case py_get acc ''id'' JNull of
        Inl err \<Rightarrow> Inl err
      | Inr i \<Rightarrow> (case get_ids accs of Inl err \<Rightarrow> Inl err | Inr is \<Rightarrow> Inr (i # is)))"

text \<open>
  Lines 244 to 252 of \<^verbatim>\<open>add_account\<close>, which are lines 390 to 398 of
  \<^verbatim>\<open>add_product\<close> with the other key: \<open>Inr None\<close> is the early \<^verbatim>\<open>return False\<close> of
  a duplicate, \<open>Inr (Some data')\<close> the dictionary to write.
\<close>

definition add_record :: "string \<Rightarrow> dict \<Rightarrow> dict \<Rightarrow> error + dict option" where
  "add_record key data account =
     (let accounts = dict_get data key (JArr [])
      in case py_iter accounts of
           Inl err \<Rightarrow> Inl err
         | Inr elems \<Rightarrow>
             (case get_ids elems of
                Inl err \<Rightarrow> Inl err
              | Inr existing_ids \<Rightarrow>
                  (if py_in (dict_get account ''id'' JNull) existing_ids then Inr None
                   else case py_append accounts (JObj account) of
                          Inl err \<Rightarrow> Inl err
                        | Inr accounts' \<Rightarrow> Inr (Some (dict_set data key accounts')))))"

text \<open>\<^verbatim>\<open>[account for account in accounts if account.get('id') != account_id]\<close>;
  \<open>account_id\<close> is a \<^verbatim>\<open>str\<close>, equal to a JSON value only when that is the same string.\<close>

fun keep_others :: "string \<Rightarrow> json list \<Rightarrow> error + json list" where
  "keep_others account_id [] = Inr []"
| "keep_others account_id (acc # accs) =
     (case py_get acc ''id'' JNull of
        Inl err \<Rightarrow> Inl err
      | Inr i \<Rightarrow>
          (case keep_others account_id accs of
             Inl err \<Rightarrow> Inl err
           | Inr rest \<Rightarrow> Inr (if i \<noteq> JStr account_id then acc # rest else rest)))"

text \<open>Lines 284 to 293 of \<^verbatim>\<open>remove_account\<close>.\<close>

definition remove_record :: "string \<Rightarrow> dict \<Rightarrow> string \<Rightarrow> error + dict option" where
  "remove_record key data account_id =
     (let accounts = dict_get data key (JArr [])
      in case py_len accounts of
           Inl err \<Rightarrow> Inl err
         | Inr original_count \<Rightarrow>
             (case py_iter accounts of
                Inl err \<Rightarrow> Inl err
              | Inr elems \<Rightarrow>
                  (case keep_others account_id elems of
                     Inl err \<Rightarrow> Inl err
                   | Inr accounts' \<Rightarrow>
                       (if length accounts' = original_count then Inr None
                        else Inr (Some (dict_set data key (JArr accounts')))))))"

text \<open>
  The loop of \<^verbatim>\<open>update_account\<close>: the first account with the id is updated in place
  and the loop breaks, so the accounts after it are not looked at. The result says
  whether an account was found.
\<close>

fun update_first :: "string \<Rightarrow> dict \<Rightarrow> json list \<Rightarrow> error + (bool \<times> json list)" where
  "update_first account_id updates [] = Inr (False, [])"
| "update_first account_id updates (acc # accs) =
     (case acc of
        JObj a \<Rightarrow>
          (if dict_get a ''id'' JNull = JStr account_id
           then Inr (True, JObj (dict_update a updates) # accs)
           else case update_first account_id updates accs of
                  Inl err \<Rightarrow> Inl err
                | Inr (found, accs') \<Rightarrow> Inr (found, acc # accs'))
      | _ \<Rightarrow> Inl AttributeError)"

text \<open>
  Lines 326 to 339 of \<^verbatim>\<open>update_account\<close>. When an account is found, \<open>accounts\<close> is a
  list: the elements of a string or of a dictionary are strings, which have no
  \<^verbatim>\<open>get\<close>.
\<close>

definition update_record :: "string \<Rightarrow> dict \<Rightarrow> string \<Rightarrow> dict \<Rightarrow> error + dict option" where
  "update_record key data account_id updates =
     (let accounts = dict_get data key (JArr [])
      in case py_iter accounts of
           Inl err \<Rightarrow> Inl err
         | Inr elems \<Rightarrow>
             (case update_first account_id updates elems of
                Inl err \<Rightarrow> Inl err
              | Inr (account_found, elems') \<Rightarrow>
                  (if \<not> account_found then Inr None
                   else Inr (Some (dict_set data key
                          (case accounts of JArr _ \<Rightarrow> JArr elems' | _ \<Rightarrow> accounts))))))"

text \<open>The end of the three writers: what was computed decides the result, and a
  changed dictionary is written back.\<close>

definition write_back ::
  "env \<Rightarrow> string \<Rightarrow> error + dict option \<Rightarrow> fs \<Rightarrow> (error + bool) \<times> fs" where
  "write_back e cache_path r fs =
     (case r of
        Inl err \<Rightarrow> (Inl err, fs)
      | Inr None \<Rightarrow> (Inr False, fs)
      | Inr (Some data') \<Rightarrow>
          (case write_cache_file e cache_path data' fs of (ok, fs') \<Rightarrow> (Inr ok, fs')))"

section \<open>The store\<close>

definition account_cache_path :: "string \<Rightarrow> string \<Rightarrow> string" where
  "account_cache_path root provider =
     (if provider = ''twitter'' then get_twitter_cache_path root
      else get_youtube_cache_path root)"

definition get_accounts :: "string \<Rightarrow> env \<Rightarrow> string \<Rightarrow> fs \<Rightarrow> (error + json) \<times> fs" where
  "get_accounts root e provider fs =
     (if provider \<notin> set [''twitter'', ''youtube''] then (Inl ValueError, fs)
      else case read_cache_file e (account_cache_path root provider)
                  [(''accounts'', JArr [])] fs of
             (Inl err, fs1) \<Rightarrow> (Inl err, fs1)
           | (Inr data, fs1) \<Rightarrow> (Inr (dict_get data ''accounts'' (JArr [])), fs1))"

definition add_account ::
  "string \<Rightarrow> env \<Rightarrow> string \<Rightarrow> json \<Rightarrow> fs \<Rightarrow> (error + bool) \<times> fs" where
  "add_account root e provider account fs =
     (if provider \<notin> set [''twitter'', ''youtube''] then (Inl ValueError, fs)
      else case account of
             JObj acc \<Rightarrow>
               (if map_of acc ''id'' = None then (Inl ValueError, fs)
                else case read_cache_file e (account_cache_path root provider)
                            [(''accounts'', JArr [])] fs of
                       (Inl err, fs1) \<Rightarrow> (Inl err, fs1)
                     | (Inr data, fs1) \<Rightarrow>
                         write_back e (account_cache_path root provider)
                           (add_record ''accounts'' data acc) fs1)
           | _ \<Rightarrow> (Inl ValueError, fs))"

definition remove_account ::
  "string \<Rightarrow> env \<Rightarrow> string \<Rightarrow> string \<Rightarrow> fs \<Rightarrow> (error + bool) \<times> fs" where
  "remove_account root e provider account_id fs =
     (if provider \<notin> set [''twitter'', ''youtube''] then (Inl ValueError, fs)
      else case read_cache_file e (account_cache_path root provider)
                  [(''accounts'', JArr [])] fs of
             (Inl err, fs1) \<Rightarrow> (Inl err, fs1)
           | (Inr data, fs1) \<Rightarrow>
               write_back e (account_cache_path root provider)
                 (remove_record ''accounts'' data account_id) fs1)"

definition update_account ::
  "string \<Rightarrow> env \<Rightarrow> string \<Rightarrow> string \<Rightarrow> dict \<Rightarrow> fs \<Rightarrow> (error + bool) \<times> fs" where
  "update_account root e provider account_id updates fs =
     (if provider \<notin> set [''twitter'', ''youtube''] then (Inl ValueError, fs)
      else case read_cache_file e (account_cache_path root provider)
                  [(''accounts'', JArr [])] fs of
             (Inl err, fs1) \<Rightarrow> (Inl err, fs1)
           | (Inr data, fs1) \<Rightarrow>
               write_back e (account_cache_path root provider)
                 (update_record ''accounts'' data account_id updates) fs1)"

definition get_products :: "string \<Rightarrow> env \<Rightarrow> fs \<Rightarrow> (error + json) \<times> fs" where
  "get_products root e fs =
     (case read_cache_file e (get_afm_cache_path root) [(''products'', JArr [])] fs of
        (Inl err, fs1) \<Rightarrow> (Inl err, fs1)
      | (Inr data, fs1) \<Rightarrow> (Inr (dict_get data ''products'' (JArr [])), fs1))"

definition add_product :: "string \<Rightarrow> env \<Rightarrow> json \<Rightarrow> fs \<Rightarrow> (error + bool) \<times> fs" where
  "add_product root e product fs =
     (case product of
        JObj pr \<Rightarrow>
          (if map_of pr ''id'' = None then (Inl ValueError, fs)
           else case read_cache_file e (get_afm_cache_path root)
                       [(''products'', JArr [])] fs of
                  (Inl err, fs1) \<Rightarrow> (Inl err, fs1)
                | (Inr data, fs1) \<Rightarrow>
                    write_back e (get_afm_cache_path root)
                      (add_record ''products'' data pr) fs1)
      | _ \<Rightarrow> (Inl ValueError, fs))"

text \<open>One of the three blocks of \<^verbatim>\<open>clear_cache\<close>: remove the file if it exists.\<close>

definition clear_one :: "env \<Rightarrow> string \<Rightarrow> fs \<Rightarrow> (error + unit) \<times> fs" where
  "clear_one e cache_path fs =
     (if os_path_exists fs cache_path then os_remove e cache_path fs else (Inr (), fs))"

text \<open>\<^verbatim>\<open>clear_cache\<close>: the first error ends the \<^verbatim>\<open>try\<close> block and gives \<^verbatim>\<open>False\<close>.\<close>

definition clear_cache :: "string \<Rightarrow> env \<Rightarrow> string option \<Rightarrow> fs \<Rightarrow> bool \<times> fs" where
  "clear_cache root e provider fs =
     (case (if provider = Some ''twitter'' \<or> provider = None
            then clear_one e (get_twitter_cache_path root) fs else (Inr (), fs)) of
        (Inl err, fs1) \<Rightarrow> (False, fs1)
      | (Inr _, fs1) \<Rightarrow>
          (case (if provider = Some ''youtube'' \<or> provider = None
                 then clear_one e (get_youtube_cache_path root) fs1 else (Inr (), fs1)) of
             (Inl err, fs2) \<Rightarrow> (False, fs2)
           | (Inr _, fs2) \<Rightarrow>
               (case (if provider = Some ''afm'' \<or> provider = None
                      then clear_one e (get_afm_cache_path root) fs2 else (Inr (), fs2)) of
                  (Inl err, fs3) \<Rightarrow> (False, fs3)
                | (Inr _, fs3) \<Rightarrow> (True, fs3))))"

section \<open>Notions used to state the properties\<close>

text \<open>A record is a dictionary; its id is what \<^verbatim>\<open>record.get('id')\<close> gives.\<close>

definition is_dict :: "json \<Rightarrow> bool" where
  "is_dict v = (case v of JObj _ \<Rightarrow> True | _ \<Rightarrow> False)"

definition record_id :: "json \<Rightarrow> json" where
  "record_id r = (case r of JObj a \<Rightarrow> dict_get a ''id'' JNull | _ \<Rightarrow> JNull)"

definition has_id :: "json \<Rightarrow> bool" where
  "has_id v = (case v of JObj a \<Rightarrow> map_of a ''id'' \<noteq> None | _ \<Rightarrow> False)"

text \<open>A file content that \<^verbatim>\<open>json.load\<close> turns into a dictionary.\<close>

definition holds_dict :: "content \<Rightarrow> bool" where
  "holds_dict c = (case c of Json (JObj _) \<Rightarrow> True | _ \<Rightarrow> False)"

text \<open>The dictionary a document holds, or the default structure when the path has no
  file, or a file that is not a JSON object.\<close>

definition stored :: "fs \<Rightarrow> string \<Rightarrow> dict \<Rightarrow> dict" where
  "stored fs p dflt = (case fs p of Some (File (Json (JObj d))) \<Rightarrow> d | _ \<Rightarrow> dflt)"

text \<open>
  What a document holds under its array field: the value stored there when the file is
  a JSON object with that field, and the empty sequence for anything else (no file, a
  directory, bytes that are not JSON, a JSON value that is not an object, an object
  without the field).
\<close>

definition records :: "fs \<Rightarrow> string \<Rightarrow> string \<Rightarrow> json" where
  "records fs p key =
     (case fs p of
        Some (File (Json (JObj d))) \<Rightarrow> (case map_of d key of None \<Rightarrow> JArr [] | Some v \<Rightarrow> v)
      | _ \<Rightarrow> JArr [])"

text \<open>A collection proper: an array whose elements are all dictionaries.\<close>

definition record_list :: "json \<Rightarrow> bool" where
  "record_list v = (case v of JArr recs \<Rightarrow> list_all is_dict recs | _ \<Rightarrow> False)"

text \<open>
  The document can be read: it exists, or the calls that create it with the default
  structure (\<^verbatim>\<open>os.makedirs\<close>, \<^verbatim>\<open>open\<close>, \<^verbatim>\<open>json.dump\<close>) do not fail.
\<close>

definition available :: "env \<Rightarrow> fs \<Rightarrow> string \<Rightarrow> bool" where
  "available e fs p =
     (fs p \<noteq> None \<or>
      \<not> raises e (Makedirs (dirname p)) \<and> \<not> raises e (OpenW p) \<and> \<not> raises e (Dump p))"

text \<open>
  No call fails during an operation on the document at \<open>p\<close>: the environment raises
  nothing, and the temporary path is not a directory.
\<close>

definition calls_succeed :: "env \<Rightarrow> fs \<Rightarrow> string \<Rightarrow> bool" where
  "calls_succeed e fs p = ((\<forall>s. \<not> raises e s) \<and> fs (p @ ''.tmp'') \<noteq> Some Dir)"

text \<open>The ids of the records of a collection, in order.\<close>

definition ids_of :: "json \<Rightarrow> json list" where
  "ids_of v = (case v of JArr recs \<Rightarrow> map record_id recs | _ \<Rightarrow> [])"

text \<open>The shape the three writers share: read the document, compute, write back.\<close>

definition read_modify_write ::
  "env \<Rightarrow> string \<Rightarrow> string \<Rightarrow> (dict \<Rightarrow> error + dict option) \<Rightarrow> fs \<Rightarrow> (error + bool) \<times> fs" where
  "read_modify_write e p key F fs =
     (case read_cache_file e p [(key, JArr [])] fs of
        (Inl err, fs1) \<Rightarrow> (Inl err, fs1)
      | (Inr data, fs1) \<Rightarrow> write_back e p (F data) fs1)"

text \<open>The directory of the three documents with its separator, so that each document
  path is this prefix followed by the file name.\<close>

definition cache_prefix :: "string \<Rightarrow> string" where
  "cache_prefix root =
     (let c = get_cache_path root in if c = [] \<or> last c = CHR ''/'' then c else c @ ''/'')"

text \<open>Concrete environments and file systems, for root directory \<^verbatim>\<open>/r\<close>.\<close>

definition quiet_env :: env where
  "quiet_env = \<lparr>raises = (\<lambda>_. False), leftover = []\<rparr>"

definition rename_fails :: env where
  "rename_fails =
     \<lparr>raises = (\<lambda>s. s = Rename ''/r/.mp/twitter.json.tmp'' ''/r/.mp/twitter.json''),
      leftover = []\<rparr>"

definition two_accounts :: json where
  "two_accounts =
     JObj [(''accounts'',
        JArr [JObj [(''id'', JStr ''a1''), (''nickname'', JStr ''X'')],
              JObj [(''id'', JStr ''a2''), (''nickname'', JStr ''Y'')]])]"

definition twitter_fs :: "content \<Rightarrow> fs" where
  "twitter_fs c =
     (Map.empty(''/r/.mp'' \<mapsto> Dir))(''/r/.mp/twitter.json'' \<mapsto> File c)"

definition afm_fs :: "content \<Rightarrow> fs" where
  "afm_fs c = (Map.empty(''/r/.mp'' \<mapsto> Dir))(''/r/.mp/afm.json'' \<mapsto> File c)"

definition store_fs :: fs where
  "store_fs =
     (((Map.empty(''/r/.mp'' \<mapsto> Dir))
        (''/r/.mp/twitter.json'' \<mapsto> File (Json two_accounts)))
        (''/r/.mp/youtube.json'' \<mapsto> File (Json two_accounts)))
        (''/r/.mp/afm.json'' \<mapsto> File (Json (JObj [(''products'', JArr [])])))"

definition a1_nickname_X :: json where
  "a1_nickname_X = JObj [(''id'', JStr ''a1''), (''nickname'', JStr ''X'')]"

definition a2_nickname_Y :: json where
  "a2_nickname_Y = JObj [(''id'', JStr ''a2''), (''nickname'', JStr ''Y'')]"

section \<open>Values\<close>

lemma map_of_map_prod: "map_of (map (map_prod id f) kvs) k = map_option f (map_of kvs k)"
  by (induction kvs) auto

lemma py_eq_refl: "py_eq x x"
proof (induction x)
  case (JArr xs)
  then show ?case by (induction xs) auto
next
  case (JObj kvs)
  have "\<And>k v. map_of kvs k = Some v \<Longrightarrow> py_eq v v"
  proof -
    fix k v assume "map_of kvs k = Some v"
    then have "(k, v) \<in> set kvs" by (rule map_of_SomeD)
    then show "py_eq v v" using JObj by fastforce
  qed
  moreover have "\<And>k. k \<in> fst ` set kvs \<Longrightarrow> \<exists>v. map_of kvs k = Some v"
    by (metis domIff dom_map_of_conv_image_fst not_Some_eq)
  ultimately show ?case
    by (auto simp: list_all_iff map_of_map_prod split: option.splits)
qed simp_all

lemma py_in_member: "x \<in> set xs \<Longrightarrow> py_in x xs"
  by (auto simp: py_in_def list_ex_iff intro: py_eq_refl)

lemma map_of_dict_set: "map_of (dict_set d k v) = (map_of d)(k \<mapsto> v)"
  by (induction d) (auto simp: fun_eq_iff)

lemma dict_get_dict_set: "dict_get (dict_set d k v) k' dflt = (if k' = k then v else dict_get d k' dflt)"
  by (simp add: dict_get_def map_of_dict_set)

lemma map_of_fold_dict_set:
  "map_of (fold (\<lambda>(k, v) acc. dict_set acc k v) ups d) = map_of d ++ map_of (rev ups)"
  by (induction ups arbitrary: d) (auto simp: map_of_dict_set fun_eq_iff map_add_def split: option.splits)

lemma map_of_dict_update: "map_of (dict_update d ups) = map_of d ++ map_of (rev ups)"
  by (simp add: dict_update_def map_of_fold_dict_set)

lemma map_of_rev_distinct: "distinct (map fst ups) \<Longrightarrow> map_of (rev ups) = map_of ups"
  by (rule map_of_inject_set[THEN iffD2]) (simp_all add: distinct_map)

lemma get_ids_dicts: "list_all is_dict recs \<Longrightarrow> get_ids recs = Inr (map record_id recs)"
  by (induction recs) (auto simp: is_dict_def record_id_def py_get_def dict_get_def split: json.splits)

lemma get_ids_Inr: "get_ids recs = Inr ids \<Longrightarrow> list_all is_dict recs"
  by (induction recs arbitrary: ids) (auto simp: is_dict_def py_get_def split: json.splits sum.splits)

lemma keep_others_dicts:
  "list_all is_dict recs \<Longrightarrow>
   keep_others aid recs = Inr (filter (\<lambda>r. record_id r \<noteq> JStr aid) recs)"
  by (induction recs) (auto simp: is_dict_def record_id_def py_get_def dict_get_def split: json.splits)

lemma keep_others_Inr: "keep_others aid recs = Inr kept \<Longrightarrow> list_all is_dict recs"
  by (induction recs arbitrary: kept) (auto simp: is_dict_def py_get_def split: json.splits sum.splits)

lemma update_first_none:
  "list_all is_dict recs \<Longrightarrow> \<not> list_ex (\<lambda>r. record_id r = JStr aid) recs \<Longrightarrow>
   update_first aid ups recs = Inr (False, recs)"
  by (induction recs) (auto simp: is_dict_def record_id_def split: json.splits)

lemma update_first_hit:
  "list_all is_dict pre \<Longrightarrow> \<not> list_ex (\<lambda>r. record_id r = JStr aid) pre \<Longrightarrow>
   dict_get a ''id'' JNull = JStr aid \<Longrightarrow>
   update_first aid ups (pre @ JObj a # post) = Inr (True, pre @ JObj (dict_update a ups) # post)"
  by (induction pre) (auto simp: is_dict_def record_id_def split: json.splits)

section \<open>Reading and writing one file\<close>

lemma tmp_neq [simp]: "p @ ''.tmp'' \<noteq> p" "p \<noteq> p @ ''.tmp''"
  by (simp_all)

lemma os_remove_frame: "q \<noteq> p \<Longrightarrow> snd (os_remove e p fs) q = fs q"
  by (simp add: os_remove_def split: option.splits node.splits)

lemma cleanup_temp_frame: "q \<noteq> t \<Longrightarrow> cleanup_temp e t fs q = fs q"
  by (simp add: cleanup_temp_def os_remove_frame)

lemma open_dump_frame: "q \<noteq> p \<Longrightarrow> snd (open_dump e p d fs) q = fs q"
  by (simp add: open_dump_def)

lemma os_makedirs_frame: "q \<noteq> p \<Longrightarrow> snd (os_makedirs e p fs) q = fs q"
  by (simp add: os_makedirs_def)

lemma os_rename_frame: "q \<noteq> a \<Longrightarrow> q \<noteq> b \<Longrightarrow> snd (os_rename e a b fs) q = fs q"
  by (simp add: os_rename_def split: option.splits)

lemma ensure_frame:
  "q \<noteq> p \<Longrightarrow> q \<noteq> dirname p \<Longrightarrow> snd (ensure_cache_file_exists e p dflt fs) q = fs q"
  by (auto simp: ensure_cache_file_exists_def Let_def os_makedirs_def open_dump_def
      split: prod.splits sum.splits if_splits)

lemma ensure_present: "fs p \<noteq> None \<Longrightarrow> ensure_cache_file_exists e p dflt fs = (Inr (), fs)"
  by (simp add: ensure_cache_file_exists_def os_path_exists_def)

lemma read_frame:
  "q \<noteq> p \<Longrightarrow> q \<noteq> dirname p \<Longrightarrow> snd (read_cache_file e p dflt fs) q = fs q"
  using ensure_frame[of q p e dflt fs]
  by (auto simp: read_cache_file_def split: prod.splits sum.splits json.splits)

lemma read_present:
  "fs p \<noteq> None \<Longrightarrow>
   read_cache_file e p dflt fs =
     (Inr (if raises e (OpenR p) then dflt else stored fs p dflt), fs)"
  by (auto simp: read_cache_file_def ensure_present open_load_def stored_def
      split: option.splits node.splits content.splits json.splits)

lemma read_absent:
  assumes "fs p = None" "dirname p \<noteq> p"
    and "\<not> raises e (Makedirs (dirname p))" "\<not> raises e (OpenW p)" "\<not> raises e (Dump p)"
  shows "\<exists>fs1. read_cache_file e p dflt fs = (Inr dflt, fs1) \<and>
           fs1 p = Some (File (Json (JObj dflt)))"
  using assms
  by (auto simp: read_cache_file_def ensure_cache_file_exists_def Let_def os_path_exists_def
      os_makedirs_def open_dump_def open_load_def)

lemma read_target_cases:
  "read_cache_file e p dflt fs = (r, fs1) \<Longrightarrow>
   fs1 p = fs p \<or> fs1 p = Some Dir \<or> fs1 p = Some (File (Garbage (leftover e)))
     \<or> fs1 p = Some (File (Json (JObj dflt)))"
  by (auto simp: read_cache_file_def ensure_cache_file_exists_def Let_def os_path_exists_def
      os_makedirs_def open_dump_def split: prod.splits sum.splits if_splits json.splits)

lemma read_Inr_stored:
  assumes "read_cache_file e p dflt fs = (Inr data, fs1)"
  shows "data = dflt \<or>
         (fs p \<noteq> None \<and> fs1 = fs \<and> \<not> raises e (OpenR p) \<and> data = stored fs p dflt)"
proof (cases "fs p = None")
  case True
  with assms show ?thesis
    by (auto simp: read_cache_file_def ensure_cache_file_exists_def Let_def os_path_exists_def
        os_makedirs_def open_dump_def open_load_def
        split: prod.splits sum.splits json.splits if_splits option.splits node.splits content.splits)
next
  case False
  with assms show ?thesis
    by (auto simp: read_present split: if_splits)
qed

lemma write_frame:
  "q \<noteq> p \<Longrightarrow> q \<noteq> p @ ''.tmp'' \<Longrightarrow> snd (write_cache_file e p d fs) q = fs q"
  by (auto simp: write_cache_file_def Let_def open_dump_def os_path_exists_def os_remove_def
      os_rename_def cleanup_temp_def split: prod.splits sum.splits if_splits option.splits node.splits)

lemma write_True:
  "write_cache_file e p d fs = (True, fs') \<Longrightarrow>
   fs' p = Some (File (Json (JObj d))) \<and> fs' (p @ ''.tmp'') = None"
  by (auto simp: write_cache_file_def Let_def open_dump_def os_path_exists_def os_remove_def
      os_rename_def cleanup_temp_def split: prod.splits sum.splits if_splits option.splits node.splits)

lemma write_target_cases:
  "snd (write_cache_file e p d fs) p = fs p \<or> snd (write_cache_file e p d fs) p = None
     \<or> snd (write_cache_file e p d fs) p = Some (File (Json (JObj d)))"
  by (auto simp: write_cache_file_def Let_def open_dump_def os_path_exists_def os_remove_def
      os_rename_def cleanup_temp_def split: prod.splits sum.splits if_splits option.splits node.splits)

lemma write_quiet:
  assumes "\<forall>s. \<not> raises e s" "fs (p @ ''.tmp'') \<noteq> Some Dir" "fs p \<noteq> Some Dir"
  shows "write_cache_file e p d fs =
           (True, (fs(p @ ''.tmp'' := None))(p \<mapsto> File (Json (JObj d))))"
  using assms
  by (auto simp: write_cache_file_def Let_def open_dump_def os_path_exists_def os_remove_def
      os_rename_def cleanup_temp_def fun_eq_iff split: prod.splits sum.splits if_splits option.splits node.splits)

text \<open>A write that fails before the rename is reached leaves the document as it was:
  the temporary file could not be written, or the old document could not be removed.\<close>

lemma write_fails_before_rename:
  assumes "raises e (OpenW (p @ ''.tmp'')) \<or> raises e (Dump (p @ ''.tmp'')) \<or>
           fs p \<noteq> None \<and> raises e (Remove p)"
  shows "fst (write_cache_file e p d fs) = False \<and> snd (write_cache_file e p d fs) p = fs p"
  using assms
  by (auto simp: write_cache_file_def Let_def open_dump_def os_path_exists_def os_remove_def
      cleanup_temp_def split: option.splits node.splits)

section \<open>The paths of the documents\<close>

lemma twitter_path: "get_twitter_cache_path root = cache_prefix root @ ''twitter.json''"
  by (simp add: get_twitter_cache_path_def path_join_def cache_prefix_def Let_def)

lemma youtube_path: "get_youtube_cache_path root = cache_prefix root @ ''youtube.json''"
  by (simp add: get_youtube_cache_path_def path_join_def cache_prefix_def Let_def)

lemma afm_path: "get_afm_cache_path root = cache_prefix root @ ''afm.json''"
  by (simp add: get_afm_cache_path_def path_join_def cache_prefix_def Let_def)

lemma length_dirname: "CHR ''/'' \<notin> set s \<Longrightarrow> length (dirname (a @ s)) \<le> length a"
proof -
  assume s: "CHR ''/'' \<notin> set s"
  have "dropWhile (\<lambda>c. c \<noteq> CHR ''/'') (rev s @ rev a) = dropWhile (\<lambda>c. c \<noteq> CHR ''/'') (rev a)"
    using s by (intro dropWhile_append2) auto
  moreover have "length (dropWhile P (rev a)) \<le> length a" for P
    using length_dropWhile_le[of P "rev a"] by simp
  moreover have "length (dropWhile Q (dropWhile P (rev a))) \<le> length a" for P Q
    using length_dropWhile_le[of Q "dropWhile P (rev a)"] length_dropWhile_le[of P "rev a"] by simp
  ultimately show ?thesis
    by (simp add: dirname_def Let_def)
qed

lemma dirname_neq: "CHR ''/'' \<notin> set s \<Longrightarrow> t \<noteq> [] \<Longrightarrow> dirname (a @ s) \<noteq> a @ t"
  using length_dirname[of s a] by (auto simp: neq_Nil_conv)

lemmas doc_paths = twitter_path youtube_path afm_path

lemma docs_distinct:
  "get_twitter_cache_path root \<noteq> get_youtube_cache_path root"
  "get_twitter_cache_path root \<noteq> get_afm_cache_path root"
  "get_youtube_cache_path root \<noteq> get_afm_cache_path root"
  by (simp_all add: doc_paths)

lemma doc_cases:
  "q \<in> {get_twitter_cache_path root, get_youtube_cache_path root, get_afm_cache_path root} \<Longrightarrow>
   \<exists>s. q = cache_prefix root @ s \<and> s \<noteq> [] \<and> CHR ''/'' \<notin> set s \<and> CHR ''.'' \<noteq> last s
     \<and> s \<in> {''twitter.json'', ''youtube.json'', ''afm.json''}"
  unfolding doc_paths by (elim insertE emptyE) simp_all

lemma docs_not_dirname:
  assumes "q \<in> {get_twitter_cache_path root, get_youtube_cache_path root, get_afm_cache_path root}"
    and "p \<in> {get_twitter_cache_path root, get_youtube_cache_path root, get_afm_cache_path root}"
  shows "q \<noteq> dirname p"
proof -
  from doc_cases[OF assms(1)] obtain s where s: "q = cache_prefix root @ s" "s \<noteq> []" by blast
  from doc_cases[OF assms(2)] obtain t where t: "p = cache_prefix root @ t" "CHR ''/'' \<notin> set t" by blast
  from dirname_neq[OF t(2) s(2), of "cache_prefix root"] show ?thesis
    unfolding s t by metis
qed

lemma docs_not_tmp:
  assumes "q \<in> {get_twitter_cache_path root, get_youtube_cache_path root, get_afm_cache_path root}"
    and "p \<in> {get_twitter_cache_path root, get_youtube_cache_path root, get_afm_cache_path root}"
  shows "q \<noteq> p @ ''.tmp''"
proof -
  from doc_cases[OF assms(1)] obtain s where s: "q = cache_prefix root @ s" "s \<in> {''twitter.json'', ''youtube.json'', ''afm.json''}" by blast
  from doc_cases[OF assms(2)] obtain t where t: "p = cache_prefix root @ t" "t \<in> {''twitter.json'', ''youtube.json'', ''afm.json''}" by blast
  have "s \<noteq> t @ ''.tmp''" using s(2) t(2) by (elim insertE emptyE) simp_all
  then show ?thesis unfolding s t by simp
qed

section \<open>Reading, then writing back\<close>

lemma records_stored: "records fs p key = dict_get (stored fs p [(key, JArr [])]) key (JArr [])"
  by (simp add: records_def stored_def dict_get_def
      split: option.splits node.splits content.splits json.splits)

lemma records_absent: "fs p = None \<Longrightarrow> records fs p key = JArr []"
  by (simp add: records_def)

lemma records_written:
  "fs p = Some (File (Json (JObj d))) \<Longrightarrow> records fs p key = dict_get d key (JArr [])"
  by (simp add: records_def dict_get_def)

lemma length_dirname_le: "length (dirname p) \<le> length p"
  using length_dirname[of "[]" p] by simp

lemma tmp_not_dirname: "p @ ''.tmp'' \<noteq> dirname p"
proof
  assume "p @ ''.tmp'' = dirname p"
  then have "length (p @ ''.tmp'') = length (dirname p)" by simp
  with length_dirname_le[of p] show False by simp
qed

lemma read_records:
  assumes "read_cache_file e p [(key, JArr [])] fs = (Inr data, fs1)" "\<not> raises e (OpenR p)"
  shows "dict_get data key (JArr []) = records fs p key"
proof -
  from read_Inr_stored[OF assms(1)]
  consider "data = [(key, JArr [])]" "fs p = None"
    | "fs p \<noteq> None" "data = stored fs p [(key, JArr [])]"
    using assms by (cases "fs p = None") (auto simp: read_present)
  then show ?thesis
  proof cases
    case 1
    then show ?thesis by (simp add: records_absent dict_get_def)
  next
    case 2
    then show ?thesis by (simp add: records_stored)
  qed
qed

lemma write_back_Some:
  "write_back e p (Inr (Some d)) fs =
     (Inr (fst (write_cache_file e p d fs)), snd (write_cache_file e p d fs))"
  by (simp add: write_back_def split: prod.splits)

lemma write_back_other:
  "write_back e p (Inl err) fs = (Inl err, fs)" "write_back e p (Inr None) fs = (Inr False, fs)"
  by (simp_all add: write_back_def)

lemma write_back_frame:
  "q \<noteq> p \<Longrightarrow> q \<noteq> p @ ''.tmp'' \<Longrightarrow> snd (write_back e p r fs) q = fs q"
  by (cases r; cases "projr r") (simp_all add: write_back_Some write_back_other write_frame)

lemma rmw_frame:
  assumes "q \<noteq> p" "q \<noteq> dirname p" "q \<noteq> p @ ''.tmp''"
  shows "snd (read_modify_write e p key F fs) q = fs q"
proof (cases "read_cache_file e p [(key, JArr [])] fs")
  case (Pair r fs1)
  have fs1: "fs1 q = fs q" using read_frame[OF assms(1,2), of e "[(key, JArr [])]" fs] Pair by simp
  show ?thesis
  proof (cases r)
    case (Inl err)
    with Pair fs1 show ?thesis by (simp add: read_modify_write_def)
  next
    case (Inr data)
    with Pair fs1 write_back_frame[OF assms(1,3), of e "F data" fs1] show ?thesis
      by (simp add: read_modify_write_def)
  qed
qed

lemma rmw_True:
  assumes "read_modify_write e p key F fs = (Inr True, fs')"
  shows "\<exists>data fs1 d'. read_cache_file e p [(key, JArr [])] fs = (Inr data, fs1) \<and>
           F data = Inr (Some d') \<and> fs' p = Some (File (Json (JObj d')))"
  using assms write_True[of e p _ _ fs']
  by (auto simp: read_modify_write_def write_back_def split: prod.splits sum.splits option.splits)

lemma rmw_invariant:
  assumes P0: "P (JArr [])"
    and step: "\<And>data d'. F data = Inr (Some d') \<Longrightarrow> P (dict_get data key (JArr [])) \<Longrightarrow>
                 P (dict_get d' key (JArr []))"
    and inv: "P (records fs p key)"
  shows "P (records (snd (read_modify_write e p key F fs)) p key)"
proof (cases "read_cache_file e p [(key, JArr [])] fs")
  case (Pair r fs1)
  from read_target_cases[OF Pair] have P1: "P (records fs1 p key)"
    using P0 inv by (auto simp: records_def dict_get_def)
  show ?thesis
  proof (cases r)
    case (Inl err)
    with Pair P1 show ?thesis by (simp add: read_modify_write_def)
  next
    case (Inr data)
    have Pd: "P (dict_get data key (JArr []))"
      using read_Inr_stored[OF Pair[unfolded Inr]] P0 inv
      by (auto simp: dict_get_def records_stored)
    show ?thesis
    proof (cases "F data")
      case (Inl err)
      with Pair Inr P1 show ?thesis by (simp add: read_modify_write_def write_back_def)
    next
      case (Inr res)
      show ?thesis
      proof (cases res)
        case None
        with Pair \<open>r = Inr data\<close> Inr P1 show ?thesis
          by (simp add: read_modify_write_def write_back_def)
      next
        case (Some d')
        have "P (dict_get d' key (JArr []))" using step Inr Some Pd by simp
        then have "P (records (snd (write_cache_file e p d' fs1)) p key)"
          using write_target_cases[of e p d' fs1] P1 P0
          by (auto simp: records_def dict_get_def)
        with Pair \<open>r = Inr data\<close> Inr Some show ?thesis
          by (simp add: read_modify_write_def write_back_Some)
      qed
    qed
  qed
qed

section \<open>The operations on the records of a dictionary\<close>

lemma read_quiet:
  assumes "\<forall>s. \<not> raises e s" "dirname p \<noteq> p"
  shows "\<exists>fs1. read_cache_file e p dflt fs = (Inr (stored fs p dflt), fs1) \<and>
           (fs p \<noteq> None \<longrightarrow> fs1 = fs) \<and>
           (fs p = None \<longrightarrow> fs1 p = Some (File (Json (JObj dflt)))) \<and>
           fs1 (p @ ''.tmp'') = fs (p @ ''.tmp'')"
proof (cases "fs p = None")
  case True
  from read_absent[of fs p e dflt] True assms
  obtain fs1 where r: "read_cache_file e p dflt fs = (Inr dflt, fs1)"
    "fs1 p = Some (File (Json (JObj dflt)))" by auto
  have "fs1 (p @ ''.tmp'') = fs (p @ ''.tmp'')"
    using read_frame[of "p @ ''.tmp''" p e dflt fs] r(1) tmp_not_dirname[of p] by simp
  with r True show ?thesis by (simp add: stored_def)
next
  case False
  with assms(1) show ?thesis by (simp add: read_present)
qed

lemma keep_all_iff:
  "length (filter P xs) = length xs \<longleftrightarrow> \<not> list_ex (\<lambda>x. \<not> P x) xs"
proof (induction xs)
  case Nil
  then show ?case by simp
next
  case (Cons x xs)
  have "length (filter P xs) \<noteq> Suc (length xs)"
    using length_filter_le[of P xs] by (simp del: length_filter_le)
  with Cons show ?case by auto
qed

lemma remove_record_shape:
  assumes "dict_get data key (JArr []) = JArr recs" "list_all is_dict recs"
  shows "remove_record key data aid =
           (if list_ex (\<lambda>r. record_id r = JStr aid) recs
            then Inr (Some (dict_set data key (JArr (filter (\<lambda>r. record_id r \<noteq> JStr aid) recs))))
            else Inr None)"
  using assms keep_all_iff[of "\<lambda>r. record_id r \<noteq> JStr aid" recs]
  by (simp add: remove_record_def py_len_def py_iter_def keep_others_dicts)

lemma no_dict_strings: "list_all is_dict (map g xs) \<Longrightarrow> (\<And>x. \<not> is_dict (g x)) \<Longrightarrow> xs = []"
  by (cases xs) simp_all

lemma remove_record_Some:
  assumes "remove_record key data aid = Inr (Some d')"
  shows "\<exists>recs. dict_get data key (JArr []) = JArr recs \<and> list_all is_dict recs \<and>
           d' = dict_set data key (JArr (filter (\<lambda>r. record_id r \<noteq> JStr aid) recs))"
proof (cases "dict_get data key (JArr [])")
  case (JArr recs)
  with assms have "list_all is_dict recs"
    by (auto simp: remove_record_def py_len_def py_iter_def split: sum.splits dest: keep_others_Inr)
  with assms JArr show ?thesis
    by (auto simp: remove_record_shape split: if_splits)
next
  case (JStr s)
  with assms obtain kept where k: "keep_others aid (map (\<lambda>c. JStr [c]) s) = Inr kept"
    "length kept \<noteq> length s"
    by (auto simp: remove_record_def py_len_def py_iter_def split: sum.splits if_splits)
  from keep_others_Inr[OF k(1)] have "s = []" by (rule no_dict_strings) (simp add: is_dict_def)
  with k show ?thesis by simp
next
  case (JObj kvs)
  with assms obtain kept where k: "keep_others aid (map (\<lambda>(k, _). JStr k) kvs) = Inr kept"
    "length kept \<noteq> length kvs"
    by (auto simp: remove_record_def py_len_def py_iter_def split: sum.splits if_splits)
  from keep_others_Inr[OF k(1)] have "kvs = []"
    by (rule no_dict_strings) (simp add: is_dict_def split: prod.splits)
  with k show ?thesis by simp
qed (use assms in \<open>simp_all add: remove_record_def py_len_def\<close>)

lemma add_record_shape:
  assumes "dict_get data key (JArr []) = JArr recs" "list_all is_dict recs"
  shows "add_record key data acc =
           (if py_in (dict_get acc ''id'' JNull) (map record_id recs) then Inr None
            else Inr (Some (dict_set data key (JArr (recs @ [JObj acc])))))"
  using assms by (simp add: add_record_def py_iter_def get_ids_dicts py_append_def)

lemma add_record_Some:
  assumes "add_record key data acc = Inr (Some d')"
  shows "\<exists>recs. dict_get data key (JArr []) = JArr recs \<and> list_all is_dict recs \<and>
           \<not> py_in (dict_get acc ''id'' JNull) (map record_id recs) \<and>
           d' = dict_set data key (JArr (recs @ [JObj acc]))"
proof (cases "dict_get data key (JArr [])")
  case (JArr recs)
  with assms have "list_all is_dict recs"
    by (auto simp: add_record_def py_iter_def split: sum.splits dest: get_ids_Inr)
  with assms JArr show ?thesis
    by (auto simp: add_record_shape split: if_splits)
qed (use assms in \<open>auto simp: add_record_def py_iter_def py_append_def split: sum.splits if_splits\<close>)

lemma update_first_found:
  "update_first aid ups elems = Inr (True, elems') \<Longrightarrow>
   \<exists>pre a post. elems = pre @ JObj a # post \<and> list_all is_dict pre \<and>
      \<not> list_ex (\<lambda>r. record_id r = JStr aid) pre \<and> dict_get a ''id'' JNull = JStr aid \<and>
      elems' = pre @ JObj (dict_update a ups) # post"
proof (induction elems arbitrary: elems')
  case Nil
  then show ?case by simp
next
  case (Cons x xs)
  then obtain a where x: "x = JObj a" by (cases x) simp_all
  show ?case
  proof (cases "dict_get a ''id'' JNull = JStr aid")
    case True
    with Cons.prems x have "elems' = JObj (dict_update a ups) # xs" by simp
    with True x have "x # xs = [] @ JObj a # xs \<and> list_all is_dict [] \<and>
      \<not> list_ex (\<lambda>r. record_id r = JStr aid) [] \<and> dict_get a ''id'' JNull = JStr aid \<and>
      elems' = [] @ JObj (dict_update a ups) # xs" by simp
    then show ?thesis by blast
  next
    case False
    with Cons.prems x obtain ys where ys: "update_first aid ups xs = Inr (True, ys)" "elems' = x # ys"
      by (auto split: sum.splits)
    from Cons.IH[OF ys(1)] obtain pre b post where
      "xs = pre @ JObj b # post" "list_all is_dict pre"
      "\<not> list_ex (\<lambda>r. record_id r = JStr aid) pre" "dict_get b ''id'' JNull = JStr aid"
      "ys = pre @ JObj (dict_update b ups) # post" by blast
    with x False ys(2) have "x # xs = (x # pre) @ JObj b # post \<and> list_all is_dict (x # pre) \<and>
      \<not> list_ex (\<lambda>r. record_id r = JStr aid) (x # pre) \<and> dict_get b ''id'' JNull = JStr aid \<and>
      elems' = (x # pre) @ JObj (dict_update b ups) # post"
      by (simp add: is_dict_def record_id_def)
    then show ?thesis by blast
  qed
qed

lemma update_record_none:
  assumes "dict_get data key (JArr []) = JArr recs" "list_all is_dict recs"
    "\<not> list_ex (\<lambda>r. record_id r = JStr aid) recs"
  shows "update_record key data aid ups = Inr None"
  using assms by (simp add: update_record_def py_iter_def update_first_none)

lemma update_record_hit:
  assumes "dict_get data key (JArr []) = JArr (pre @ JObj a # post)" "list_all is_dict pre"
    "\<not> list_ex (\<lambda>r. record_id r = JStr aid) pre" "dict_get a ''id'' JNull = JStr aid"
  shows "update_record key data aid ups =
           Inr (Some (dict_set data key (JArr (pre @ JObj (dict_update a ups) # post))))"
  using assms by (simp add: update_record_def py_iter_def update_first_hit)

lemma update_record_Some:
  assumes "update_record key data aid ups = Inr (Some d')"
  shows "\<exists>pre a post. dict_get data key (JArr []) = JArr (pre @ JObj a # post) \<and>
           list_all is_dict pre \<and> \<not> list_ex (\<lambda>r. record_id r = JStr aid) pre \<and>
           dict_get a ''id'' JNull = JStr aid \<and>
           d' = dict_set data key (JArr (pre @ JObj (dict_update a ups) # post))"
proof -
  from assms obtain elems elems' where e: "py_iter (dict_get data key (JArr [])) = Inr elems"
    "update_first aid ups elems = Inr (True, elems')"
    "d' = dict_set data key (case dict_get data key (JArr []) of JArr _ \<Rightarrow> JArr elems'
                               | _ \<Rightarrow> dict_get data key (JArr []))"
    by (auto simp: update_record_def Let_def split: sum.splits prod.splits if_splits)
  from update_first_found[OF e(2)] obtain pre a post where
    p: "elems = pre @ JObj a # post" "list_all is_dict pre"
      "\<not> list_ex (\<lambda>r. record_id r = JStr aid) pre" "dict_get a ''id'' JNull = JStr aid"
      "elems' = pre @ JObj (dict_update a ups) # post" by blast
  have "dict_get data key (JArr []) = JArr elems"
  proof (cases "dict_get data key (JArr [])")
    case (JArr xs)
    with e(1) show ?thesis by (simp add: py_iter_def)
  next
    case (JStr s)
    with e(1) p(1) show ?thesis
      by (auto simp: py_iter_def map_eq_append_conv)
  next
    case (JObj kvs)
    with e(1) p(1) show ?thesis
      by (auto simp: py_iter_def map_eq_append_conv split: prod.splits)
  qed (use e(1) in \<open>simp_all add: py_iter_def\<close>)
  with e(3) p show ?thesis by auto
qed

lemma dict_update_keeps_id:
  "map_of ups ''id'' = None \<Longrightarrow> dict_get (dict_update a ups) ''id'' JNull = dict_get a ''id'' JNull"
proof -
  assume "map_of ups ''id'' = None"
  then have "map_of (rev ups) ''id'' = None"
    by (simp add: map_of_eq_None_iff)
  then show ?thesis by (simp add: dict_get_def map_of_dict_update map_add_def)
qed

section \<open>The operations, one document at a time\<close>

lemma doc_dirname_neq:
  assumes "p \<in> {get_twitter_cache_path root, get_youtube_cache_path root, get_afm_cache_path root}"
  shows "dirname p \<noteq> p"
  using docs_not_dirname[OF assms assms] by simp

lemma account_path_doc:
  "account_cache_path root provider \<in>
     {get_twitter_cache_path root, get_youtube_cache_path root, get_afm_cache_path root}"
  by (simp add: account_cache_path_def)

lemma add_account_rmw:
  "provider \<in> {''twitter'', ''youtube''} \<Longrightarrow> map_of acc ''id'' \<noteq> None \<Longrightarrow>
   add_account root e provider (JObj acc) fs =
     read_modify_write e (account_cache_path root provider) ''accounts''
       (\<lambda>data. add_record ''accounts'' data acc) fs"
  by (auto simp: add_account_def read_modify_write_def)

lemma remove_account_rmw:
  "provider \<in> {''twitter'', ''youtube''} \<Longrightarrow>
   remove_account root e provider aid fs =
     read_modify_write e (account_cache_path root provider) ''accounts''
       (\<lambda>data. remove_record ''accounts'' data aid) fs"
  by (auto simp: remove_account_def read_modify_write_def)

lemma update_account_rmw:
  "provider \<in> {''twitter'', ''youtube''} \<Longrightarrow>
   update_account root e provider aid ups fs =
     read_modify_write e (account_cache_path root provider) ''accounts''
       (\<lambda>data. update_record ''accounts'' data aid ups) fs"
  by (auto simp: update_account_def read_modify_write_def)

lemma add_product_rmw:
  "map_of pr ''id'' \<noteq> None \<Longrightarrow>
   add_product root e (JObj pr) fs =
     read_modify_write e (get_afm_cache_path root) ''products''
       (\<lambda>data. add_record ''products'' data pr) fs"
  by (auto simp: add_product_def read_modify_write_def)

lemma rmw_doc_frame:
  assumes "q \<in> {get_twitter_cache_path root, get_youtube_cache_path root, get_afm_cache_path root}"
    and "p \<in> {get_twitter_cache_path root, get_youtube_cache_path root, get_afm_cache_path root}"
    and "q \<noteq> p"
  shows "snd (read_modify_write e p key F fs) q = fs q"
  using rmw_frame[OF assms(3) docs_not_dirname[OF assms(1,2)] docs_not_tmp[OF assms(1,2)]] .

lemma read_doc_frame:
  assumes "q \<in> {get_twitter_cache_path root, get_youtube_cache_path root, get_afm_cache_path root}"
    and "p \<in> {get_twitter_cache_path root, get_youtube_cache_path root, get_afm_cache_path root}"
    and "q \<noteq> p"
  shows "snd (read_cache_file e p dflt fs) q = fs q"
  using read_frame[OF assms(3) docs_not_dirname[OF assms(1,2)]] .

lemma get_accounts_frame:
  assumes "q \<in> {get_twitter_cache_path root, get_youtube_cache_path root, get_afm_cache_path root}"
    and "q \<noteq> account_cache_path root provider"
  shows "snd (get_accounts root e provider fs) q = fs q"
  using read_doc_frame[OF assms(1) account_path_doc assms(2), of e "[(''accounts'', JArr [])]" fs]
  by (auto simp: get_accounts_def split: prod.splits sum.splits)

lemma add_account_frame:
  assumes "q \<in> {get_twitter_cache_path root, get_youtube_cache_path root, get_afm_cache_path root}"
    and "q \<noteq> account_cache_path root provider"
  shows "snd (add_account root e provider account fs) q = fs q"
proof (cases "provider \<in> {''twitter'', ''youtube''} \<and> has_id account")
  case True
  then obtain acc where "account = JObj acc" "map_of acc ''id'' \<noteq> None"
    by (auto simp: has_id_def split: json.splits)
  with True show ?thesis
    by (simp add: add_account_rmw rmw_doc_frame[OF assms(1) account_path_doc assms(2)])
next
  case False
  then show ?thesis
    by (auto simp: add_account_def has_id_def split: json.splits)
qed

lemma remove_account_frame:
  assumes "q \<in> {get_twitter_cache_path root, get_youtube_cache_path root, get_afm_cache_path root}"
    and "q \<noteq> account_cache_path root provider"
  shows "snd (remove_account root e provider aid fs) q = fs q"
proof (cases "provider \<in> {''twitter'', ''youtube''}")
  case True
  then show ?thesis
    by (simp add: remove_account_rmw rmw_doc_frame[OF assms(1) account_path_doc assms(2)])
next
  case False
  then show ?thesis by (simp add: remove_account_def)
qed

lemma update_account_frame:
  assumes "q \<in> {get_twitter_cache_path root, get_youtube_cache_path root, get_afm_cache_path root}"
    and "q \<noteq> account_cache_path root provider"
  shows "snd (update_account root e provider aid ups fs) q = fs q"
proof (cases "provider \<in> {''twitter'', ''youtube''}")
  case True
  then show ?thesis
    by (simp add: update_account_rmw rmw_doc_frame[OF assms(1) account_path_doc assms(2)])
next
  case False
  then show ?thesis by (simp add: update_account_def)
qed

lemma get_products_frame:
  assumes "q \<in> {get_twitter_cache_path root, get_youtube_cache_path root, get_afm_cache_path root}"
    and "q \<noteq> get_afm_cache_path root"
  shows "snd (get_products root e fs) q = fs q"
  using read_doc_frame[OF assms(1) _ assms(2), of e "[(''products'', JArr [])]" fs]
  by (auto simp: get_products_def split: prod.splits sum.splits)

lemma add_product_frame:
  assumes "q \<in> {get_twitter_cache_path root, get_youtube_cache_path root, get_afm_cache_path root}"
    and "q \<noteq> get_afm_cache_path root"
  shows "snd (add_product root e product fs) q = fs q"
proof (cases "has_id product")
  case True
  then obtain pr where "product = JObj pr" "map_of pr ''id'' \<noteq> None"
    by (auto simp: has_id_def split: json.splits)
  then show ?thesis
    using rmw_doc_frame[OF assms(1) _ assms(2), of e "''products''" _ fs]
    by (simp add: add_product_rmw)
next
  case False
  then show ?thesis
    by (auto simp: add_product_def has_id_def split: json.splits)
qed

lemma clear_one_frame: "q \<noteq> p \<Longrightarrow> snd (clear_one e p fs) q = fs q"
  by (simp add: clear_one_def os_remove_frame)

lemma clear_one_Inr: "clear_one e p fs = (Inr u, fs') \<Longrightarrow> fs' p = None"
  by (auto simp: clear_one_def os_path_exists_def os_remove_def split: if_splits option.splits node.splits)

lemma clear_cache_Some:
  "clear_cache root e (Some provider) fs =
     (if provider = ''twitter'' then
        (fst (clear_one e (get_twitter_cache_path root) fs) = Inr (),
         snd (clear_one e (get_twitter_cache_path root) fs))
      else if provider = ''youtube'' then
        (fst (clear_one e (get_youtube_cache_path root) fs) = Inr (),
         snd (clear_one e (get_youtube_cache_path root) fs))
      else if provider = ''afm'' then
        (fst (clear_one e (get_afm_cache_path root) fs) = Inr (),
         snd (clear_one e (get_afm_cache_path root) fs))
      else (True, fs))"
  by (auto simp: clear_cache_def split: prod.splits sum.splits)

lemma clear_cache_frame:
  assumes "provider = ''twitter'' \<Longrightarrow> q \<noteq> get_twitter_cache_path root"
    and "provider = ''youtube'' \<Longrightarrow> q \<noteq> get_youtube_cache_path root"
    and "provider = ''afm'' \<Longrightarrow> q \<noteq> get_afm_cache_path root"
  shows "snd (clear_cache root e (Some provider) fs) q = fs q"
  using assms by (simp add: clear_cache_Some clear_one_frame)

lemma clear_cache_all:
  assumes "clear_cache root e None fs = (True, fs')"
  shows "fs' (get_twitter_cache_path root) = None \<and> fs' (get_youtube_cache_path root) = None \<and>
         fs' (get_afm_cache_path root) = None"
proof -
  from assms obtain u1 u2 u3 fs1 fs2 where
    c: "clear_one e (get_twitter_cache_path root) fs = (Inr u1, fs1)"
       "clear_one e (get_youtube_cache_path root) fs1 = (Inr u2, fs2)"
       "clear_one e (get_afm_cache_path root) fs2 = (Inr u3, fs')"
    by (auto simp: clear_cache_def split: prod.splits sum.splits)
  have "fs2 (get_twitter_cache_path root) = None"
    using clear_one_Inr[OF c(1)] clear_one_frame[of "get_twitter_cache_path root" "get_youtube_cache_path root" e fs1] c(2)
    by (simp add: docs_distinct)
  then have 1: "fs' (get_twitter_cache_path root) = None"
    using clear_one_frame[of "get_twitter_cache_path root" "get_afm_cache_path root" e fs2] c(3)
    by (simp add: docs_distinct)
  have 2: "fs' (get_youtube_cache_path root) = None"
    using clear_one_Inr[OF c(2)] clear_one_frame[of "get_youtube_cache_path root" "get_afm_cache_path root" e fs2] c(3)
    by (simp add: docs_distinct)
  from 1 2 clear_one_Inr[OF c(3)] show ?thesis by simp
qed

lemmas path_defs = get_twitter_cache_path_def get_youtube_cache_path_def get_afm_cache_path_def
  get_cache_path_def path_join_def account_cache_path_def

lemma stored_absent: "fs p = None \<Longrightarrow> stored fs p dflt = dflt"
  by (simp add: stored_def)

lemma read_available:
  assumes "available e fs p" "dirname p \<noteq> p"
  shows "\<exists>fs1. read_cache_file e p dflt fs =
           (Inr (if raises e (OpenR p) then dflt else stored fs p dflt), fs1) \<and>
           (fs p \<noteq> None \<longrightarrow> fs1 = fs) \<and> fs1 p \<noteq> None"
proof (cases "fs p = None")
  case True
  with assms read_absent[of fs p e dflt] show ?thesis
    by (auto simp: available_def stored_absent)
next
  case False
  then show ?thesis by (simp add: read_present)
qed

lemma default_records: "dict_get [(key, JArr [])] key (JArr []) = JArr []"
  by (simp add: dict_get_def)

lemma listed:
  assumes "available e fs p" "dirname p \<noteq> p"
  shows "\<exists>data fs1. read_cache_file e p [(key, JArr [])] fs = (Inr data, fs1) \<and>
           dict_get data key (JArr []) =
             (if raises e (OpenR p) then JArr [] else records fs p key)"
  using read_available[OF assms, of "[(key, JArr [])]"]
  by (auto simp: default_records records_stored)

lemma get_accounts_result:
  assumes "provider \<in> {''twitter'', ''youtube''}" "available e fs (account_cache_path root provider)"
  shows "fst (get_accounts root e provider fs) =
           Inr (if raises e (OpenR (account_cache_path root provider)) then JArr []
                else records fs (account_cache_path root provider) ''accounts'')"
  using listed[OF assms(2) doc_dirname_neq[OF account_path_doc], of "''accounts''"] assms(1)
  by (auto simp: get_accounts_def)

lemma get_products_result:
  assumes "available e fs (get_afm_cache_path root)"
  shows "fst (get_products root e fs) =
           Inr (if raises e (OpenR (get_afm_cache_path root)) then JArr []
                else records fs (get_afm_cache_path root) ''products'')"
  using listed[OF assms doc_dirname_neq, of root "''products''"]
  by (auto simp: get_products_def)

lemma add_account_Inr:
  assumes "add_account root e provider account fs = (Inr b, fs')"
  shows "provider \<in> {''twitter'', ''youtube''} \<and> (\<exists>acc. account = JObj acc \<and> map_of acc ''id'' \<noteq> None)"
  using assms by (auto simp: add_account_def split: if_splits json.splits)

lemma add_product_Inr:
  assumes "add_product root e product fs = (Inr b, fs')"
  shows "\<exists>pr. product = JObj pr \<and> map_of pr ''id'' \<noteq> None"
  using assms by (auto simp: add_product_def split: if_splits json.splits)

lemma rmw_add_then_read:
  assumes ok: "read_modify_write e p key (\<lambda>data. add_record key data acc) fs = (Inr True, fs')"
    and r: "\<not> raises e (OpenR p)" and r': "\<not> raises e' (OpenR p)"
  shows "\<exists>recs. records fs p key = JArr recs \<and>
           (\<exists>data. read_cache_file e' p [(key, JArr [])] fs' = (Inr data, fs') \<and>
              dict_get data key (JArr []) = JArr (recs @ [JObj acc]))"
proof -
  from rmw_True[OF ok] obtain data fs1 d' where
    d: "read_cache_file e p [(key, JArr [])] fs = (Inr data, fs1)"
       "add_record key data acc = Inr (Some d')" "fs' p = Some (File (Json (JObj d')))"
    by blast
  from add_record_Some[OF d(2)] obtain recs where
    recs: "dict_get data key (JArr []) = JArr recs"
      "d' = dict_set data key (JArr (recs @ [JObj acc]))" by blast
  have 1: "records fs p key = JArr recs"
    using read_records[OF d(1) r] recs(1) by simp
  have "fs' p \<noteq> None" using d(3) by simp
  then have 2: "read_cache_file e' p [(key, JArr [])] fs' = (Inr d', fs')"
    using r' d(3) by (simp add: read_present stored_def)
  have 3: "dict_get d' key (JArr []) = JArr (recs @ [JObj acc])"
    by (simp add: recs(2) dict_get_dict_set)
  from 1 2 3 show ?thesis by blast
qed

lemma add_account_then_list:
  assumes "add_account root e provider account fs = (Inr True, fs')"
    and "\<not> raises e (OpenR (account_cache_path root provider))"
    and "\<not> raises e' (OpenR (account_cache_path root provider))"
  shows "\<exists>recs. records fs (account_cache_path root provider) ''accounts'' = JArr recs \<and>
           get_accounts root e' provider fs' = (Inr (JArr (recs @ [account])), fs')"
proof -
  from add_account_Inr[OF assms(1)] obtain acc where
    a: "provider \<in> {''twitter'', ''youtube''}" "account = JObj acc" "map_of acc ''id'' \<noteq> None"
    by blast
  from assms(1) have "read_modify_write e (account_cache_path root provider) ''accounts''
       (\<lambda>data. add_record ''accounts'' data acc) fs = (Inr True, fs')"
    using add_account_rmw[OF a(1) a(3), of root e fs] a(2) by simp
  from rmw_add_then_read[OF this assms(2,3)] a show ?thesis
    by (auto simp: get_accounts_def)
qed

lemma add_product_then_list:
  assumes "add_product root e product fs = (Inr True, fs')"
    and "\<not> raises e (OpenR (get_afm_cache_path root))"
    and "\<not> raises e' (OpenR (get_afm_cache_path root))"
  shows "\<exists>recs. records fs (get_afm_cache_path root) ''products'' = JArr recs \<and>
           get_products root e' fs' = (Inr (JArr (recs @ [product])), fs')"
proof -
  from add_product_Inr[OF assms(1)] obtain pr where
    a: "product = JObj pr" "map_of pr ''id'' \<noteq> None"
    by blast
  from assms(1) have "read_modify_write e (get_afm_cache_path root) ''products''
       (\<lambda>data. add_record ''products'' data pr) fs = (Inr True, fs')"
    using add_product_rmw[OF a(2), of root e fs] a(1) by simp
  from rmw_add_then_read[OF this assms(2,3)] a show ?thesis
    by (auto simp: get_products_def)
qed

lemma eval_add_a1:
  "add_account ''/r'' quiet_env ''twitter'' a1_nickname_X Map.empty =
     (Inr True, twitter_fs (Json (JObj [(''accounts'', JArr [a1_nickname_X])])))"
  by (simp add: add_account_def a1_nickname_X_def path_defs read_cache_file_def
      ensure_cache_file_exists_def os_path_exists_def open_load_def dirname_def os_makedirs_def
      write_back_def add_record_def dict_get_def py_iter_def py_get_def py_in_def py_append_def
      write_cache_file_def open_dump_def quiet_env_def os_remove_def os_rename_def
      cleanup_temp_def twitter_fs_def fun_eq_iff)

lemma eval_add_p1:
  "add_product ''/r'' quiet_env a1_nickname_X Map.empty =
     (Inr True, afm_fs (Json (JObj [(''products'', JArr [a1_nickname_X])])))"
  by (simp add: add_product_def a1_nickname_X_def path_defs read_cache_file_def
      ensure_cache_file_exists_def os_path_exists_def open_load_def dirname_def os_makedirs_def
      write_back_def add_record_def dict_get_def py_iter_def py_get_def py_in_def py_append_def
      write_cache_file_def open_dump_def quiet_env_def os_remove_def os_rename_def
      cleanup_temp_def afm_fs_def fun_eq_iff)

section \<open>Inserting, removing and updating when no call fails\<close>

lemma add_record_total:
  assumes "record_list (dict_get data key (JArr []))"
  shows "add_record key data acc = Inr None \<or> (\<exists>d'. add_record key data acc = Inr (Some d'))"
proof -
  from assms obtain recs where "dict_get data key (JArr []) = JArr recs" "list_all is_dict recs"
    by (auto simp: record_list_def split: json.splits)
  then show ?thesis by (simp add: add_record_shape)
qed

lemma write_back_result:
  "r = Inr x \<Longrightarrow> \<exists>b. fst (write_back e p r fs) = Inr b"
  by (cases x) (auto simp: write_back_Some write_back_other)

lemma rmw_add_no_raise:
  assumes "available e fs p" "dirname p \<noteq> p" "record_list (records fs p key)"
  shows "\<exists>b. fst (read_modify_write e p key (\<lambda>data. add_record key data acc) fs) = Inr b"
proof -
  from listed[OF assms(1,2), of key] obtain data fs1 where
    d: "read_cache_file e p [(key, JArr [])] fs = (Inr data, fs1)"
       "dict_get data key (JArr []) = (if raises e (OpenR p) then JArr [] else records fs p key)"
    by blast
  have "record_list (dict_get data key (JArr []))"
    using d(2) assms(3) by (simp add: record_list_def)
  from add_record_total[OF this, of acc] obtain x where "add_record key data acc = Inr x" by auto
  from write_back_result[OF this, of e p fs1] d(1) show ?thesis
    by (simp add: read_modify_write_def)
qed

lemma rmw_quiet_None:
  assumes "calls_succeed e fs p" "dirname p \<noteq> p" "F (stored fs p [(key, JArr [])]) = Inr None"
  shows "\<exists>fs'. read_modify_write e p key F fs = (Inr False, fs') \<and> fs' p \<noteq> None \<and>
           records fs' p key = records fs p key \<and> (fs p \<noteq> None \<longrightarrow> fs' = fs)"
proof -
  from assms(1) have q: "\<forall>s. \<not> raises e s" by (simp add: calls_succeed_def)
  from read_quiet[OF q assms(2), of "[(key, JArr [])]" fs] obtain fs1 where
    r: "read_cache_file e p [(key, JArr [])] fs = (Inr (stored fs p [(key, JArr [])]), fs1)"
       "fs p \<noteq> None \<longrightarrow> fs1 = fs"
       "fs p = None \<longrightarrow> fs1 p = Some (File (Json (JObj [(key, JArr [])])))"
    by (elim exE conjE) (rule that)
  have 1: "read_modify_write e p key F fs = (Inr False, fs1)"
    using r(1) assms(3) by (simp add: read_modify_write_def write_back_other)
  have 2: "fs1 p \<noteq> None" using r(2,3) by (cases "fs p = None") auto
  have 3: "records fs1 p key = records fs p key"
  proof (cases "fs p = None")
    case True
    with r(3) show ?thesis by (simp add: records_absent records_written default_records)
  next
    case False
    with r(2) show ?thesis by simp
  qed
  from 1 2 3 r(2) show ?thesis by blast
qed

lemma rmw_quiet_Some:
  assumes "calls_succeed e fs p" "dirname p \<noteq> p" "fs p \<noteq> Some Dir"
    and "F (stored fs p [(key, JArr [])]) = Inr (Some d')"
  shows "\<exists>fs'. read_modify_write e p key F fs = (Inr True, fs') \<and>
           fs' p = Some (File (Json (JObj d')))"
proof -
  from assms(1) have q: "\<forall>s. \<not> raises e s" and t: "fs (p @ ''.tmp'') \<noteq> Some Dir"
    by (simp_all add: calls_succeed_def)
  from read_quiet[OF q assms(2), of "[(key, JArr [])]" fs] obtain fs1 where
    r: "read_cache_file e p [(key, JArr [])] fs = (Inr (stored fs p [(key, JArr [])]), fs1)"
       "fs p \<noteq> None \<longrightarrow> fs1 = fs"
       "fs p = None \<longrightarrow> fs1 p = Some (File (Json (JObj [(key, JArr [])])))"
       "fs1 (p @ ''.tmp'') = fs (p @ ''.tmp'')"
    by (elim exE conjE) (rule that)
  have d: "fs1 p \<noteq> Some Dir" using r(2,3) assms(3) by (cases "fs p = None") auto
  have t1: "fs1 (p @ ''.tmp'') \<noteq> Some Dir" using t r(4) by simp
  from write_quiet[of e fs1 p d', OF q t1 d]
  have "write_cache_file e p d' fs1 =
          (True, (fs1(p @ ''.tmp'' := None))(p \<mapsto> File (Json (JObj d'))))" by simp
  with r(1) assms(4) show ?thesis
    by (simp add: read_modify_write_def write_back_Some)
qed

lemma get_accounts_quiet:
  assumes "provider \<in> {''twitter'', ''youtube''}" "\<forall>s. \<not> raises e s"
    and "fs (account_cache_path root provider) \<noteq> None"
  shows "get_accounts root e provider fs =
           (Inr (records fs (account_cache_path root provider) ''accounts''), fs)"
proof -
  have "read_cache_file e (account_cache_path root provider) [(''accounts'', JArr [])] fs =
          (Inr (stored fs (account_cache_path root provider) [(''accounts'', JArr [])]), fs)"
    using assms(2,3) by (simp add: read_present)
  with assms(1) show ?thesis
    unfolding records_stored by (simp add: get_accounts_def)
qed

lemma rmw_quiet_written:
  assumes "read_modify_write e p key F fs = (Inr True, fs')"
    and "fs' p = Some (File (Json (JObj (dict_set d key v))))"
  shows "fs' p \<noteq> None \<and> records fs' p key = v"
  using assms(2) by (simp add: records_written dict_get_dict_set)

lemma no_records_dir: "fs p = Some Dir \<Longrightarrow> records fs p key = JArr []"
  by (simp add: records_def)

lemma rmw_quiet_result:
  assumes cs: "calls_succeed e fs p" and dn: "dirname p \<noteq> p"
    and recs: "records fs p key = JArr recs"
    and F: "F (stored fs p [(key, JArr [])]) =
              (if hit then Inr (Some (dict_set (stored fs p [(key, JArr [])]) key (JArr recs')))
               else Inr None)"
    and hit: "hit \<longrightarrow> recs \<noteq> []" and miss: "\<not> hit \<longrightarrow> recs' = recs"
  shows "\<exists>fs'. read_modify_write e p key F fs = (Inr hit, fs') \<and> fs' p \<noteq> None \<and>
           records fs' p key = JArr recs' \<and> (\<not> hit \<and> fs p \<noteq> None \<longrightarrow> fs' = fs)"
proof (cases hit)
  case True
  with hit recs have nd: "fs p \<noteq> Some Dir" by (auto simp: no_records_dir)
  from F True have "F (stored fs p [(key, JArr [])]) =
      Inr (Some (dict_set (stored fs p [(key, JArr [])]) key (JArr recs')))" by simp
  from rmw_quiet_Some[of e fs p F key, OF cs dn nd this] obtain fs' where
    w: "read_modify_write e p key F fs = (Inr True, fs')"
       "fs' p = Some (File (Json (JObj (dict_set (stored fs p [(key, JArr [])]) key (JArr recs')))))"
    by blast
  from rmw_quiet_written[OF w] w(1) True show ?thesis by auto
next
  case False
  with F have "F (stored fs p [(key, JArr [])]) = Inr None" by simp
  from rmw_quiet_None[of e fs p F key, OF cs dn this] obtain fs' where
    w: "read_modify_write e p key F fs = (Inr False, fs')" "fs' p \<noteq> None"
       "records fs' p key = records fs p key" "fs p \<noteq> None \<longrightarrow> fs' = fs" by blast
  with False miss recs show ?thesis by auto
qed

lemma keep_unmatched:
  "\<not> list_ex (\<lambda>r. f r = v) recs \<Longrightarrow> filter (\<lambda>r. f r \<noteq> v) recs = recs"
  by (induction recs) auto

lemma two_accounts_records:
  "records (twitter_fs (Json two_accounts)) (account_cache_path ''/r'' ''twitter'') ''accounts'' =
     JArr [a1_nickname_X, a2_nickname_Y]"
  by (simp add: records_def twitter_fs_def two_accounts_def path_defs a1_nickname_X_def
      a2_nickname_Y_def)

lemma two_accounts_calls_succeed:
  "calls_succeed quiet_env (twitter_fs (Json two_accounts)) (account_cache_path ''/r'' ''twitter'')"
  by (simp add: calls_succeed_def quiet_env_def twitter_fs_def path_defs)

lemma first_match:
  assumes "list_ex (\<lambda>r. record_id r = JStr aid) recs" "list_all is_dict recs"
  shows "\<exists>pre a post. recs = pre @ JObj a # post \<and>
           \<not> list_ex (\<lambda>r. record_id r = JStr aid) pre \<and> dict_get a ''id'' JNull = JStr aid"
proof -
  from assms(1) have "\<exists>x\<in>set recs. record_id x = JStr aid" by (simp add: list_ex_iff)
  from split_list_first_prop[OF this] obtain pre x post where
    s: "recs = pre @ x # post" "record_id x = JStr aid" "\<forall>y\<in>set pre. record_id y \<noteq> JStr aid"
    by blast
  from assms(2) s(1) have "is_dict x" by simp
  then obtain a where a: "x = JObj a" by (cases x) (simp_all add: is_dict_def)
  with s(2) have "dict_get a ''id'' JNull = JStr aid" by (simp add: record_id_def)
  moreover from s(3) have "\<not> list_ex (\<lambda>r. record_id r = JStr aid) pre" by (simp add: list_ex_iff)
  ultimately show ?thesis using s(1) a by blast
qed

lemma update_account_miss:
  assumes "provider \<in> {''twitter'', ''youtube''}"
    and "records fs (account_cache_path root provider) ''accounts'' = JArr recs"
    and "list_all is_dict recs"
    and "calls_succeed e fs (account_cache_path root provider)"
    and "\<not> list_ex (\<lambda>r. record_id r = JStr aid) recs"
  shows "\<exists>fs'. update_account root e provider aid ups fs = (Inr False, fs') \<and>
           get_accounts root e provider fs' = (Inr (JArr recs), fs') \<and>
           (fs (account_cache_path root provider) \<noteq> None \<longrightarrow> fs' = fs)"
proof -
  let ?p = "account_cache_path root provider"
  let ?data = "stored fs ?p [(''accounts'', JArr [])]"
  have dn: "dirname ?p \<noteq> ?p" by (rule doc_dirname_neq[OF account_path_doc])
  have q: "\<forall>s. \<not> raises e s" using assms(4) by (simp add: calls_succeed_def)
  have d: "dict_get ?data ''accounts'' (JArr []) = JArr recs"
    using assms(2) by (simp add: records_stored)
  have F: "update_record ''accounts'' ?data aid ups =
             (if False then Inr (Some (dict_set ?data ''accounts'' (JArr recs))) else Inr None)"
    using update_record_none[OF d assms(3,5)] by simp
  from rmw_quiet_result[of e fs ?p "''accounts''" recs
      "\<lambda>data. update_record ''accounts'' data aid ups" False recs, OF assms(4) dn assms(2) F]
  obtain fs' where
    w: "read_modify_write e ?p ''accounts''
          (\<lambda>data. update_record ''accounts'' data aid ups) fs = (Inr False, fs')"
       "fs' ?p \<noteq> None" "records fs' ?p ''accounts'' = JArr recs"
       "fs ?p \<noteq> None \<longrightarrow> fs' = fs"
    by auto
  have r: "update_account root e provider aid ups fs = (Inr False, fs')"
    unfolding update_account_rmw[OF assms(1)] by (rule w(1))
  have g: "get_accounts root e provider fs' = (Inr (JArr recs), fs')"
    unfolding get_accounts_quiet[of provider e fs' root, OF assms(1) q w(2)] w(3) ..
  from r g w(4) show ?thesis by blast
qed

lemma update_account_hit:
  assumes "provider \<in> {''twitter'', ''youtube''}"
    and "records fs (account_cache_path root provider) ''accounts'' = JArr (pre @ JObj a # post)"
    and "list_all is_dict pre"
    and "calls_succeed e fs (account_cache_path root provider)"
    and "\<not> list_ex (\<lambda>r. record_id r = JStr aid) pre" "dict_get a ''id'' JNull = JStr aid"
  shows "\<exists>fs'. update_account root e provider aid ups fs = (Inr True, fs') \<and>
           get_accounts root e provider fs' =
             (Inr (JArr (pre @ JObj (dict_update a ups) # post)), fs')"
proof -
  let ?p = "account_cache_path root provider"
  let ?data = "stored fs ?p [(''accounts'', JArr [])]"
  let ?new = "pre @ JObj (dict_update a ups) # post"
  have dn: "dirname ?p \<noteq> ?p" by (rule doc_dirname_neq[OF account_path_doc])
  have q: "\<forall>s. \<not> raises e s" using assms(4) by (simp add: calls_succeed_def)
  have d: "dict_get ?data ''accounts'' (JArr []) = JArr (pre @ JObj a # post)"
    using assms(2) by (simp add: records_stored)
  have F: "update_record ''accounts'' ?data aid ups =
             (if True then Inr (Some (dict_set ?data ''accounts'' (JArr ?new))) else Inr None)"
    using update_record_hit[OF d assms(3,5,6)] by simp
  from rmw_quiet_result[of e fs ?p "''accounts''" "pre @ JObj a # post"
      "\<lambda>data. update_record ''accounts'' data aid ups" True ?new, OF assms(4) dn assms(2) F]
  obtain fs' where
    w: "read_modify_write e ?p ''accounts''
          (\<lambda>data. update_record ''accounts'' data aid ups) fs = (Inr True, fs')"
       "fs' ?p \<noteq> None" "records fs' ?p ''accounts'' = JArr ?new"
    by auto
  have r: "update_account root e provider aid ups fs = (Inr True, fs')"
    unfolding update_account_rmw[OF assms(1)] by (rule w(1))
  have g: "get_accounts root e provider fs' = (Inr (JArr ?new), fs')"
    unfolding get_accounts_quiet[of provider e fs' root, OF assms(1) q w(2)] w(3) ..
  from r g show ?thesis by blast
qed

lemma merge_patch:
  "distinct (map fst ups) \<Longrightarrow> map_of (dict_update a ups) = map_of a ++ map_of ups"
  by (simp add: map_of_dict_update map_of_rev_distinct)

section \<open>Distinct ids\<close>

lemma py_not_in: "\<not> py_in x xs \<Longrightarrow> x \<notin> set xs"
  using py_in_member by blast

lemma add_record_distinct:
  assumes "add_record key data acc = Inr (Some d')"
    and "distinct (ids_of (dict_get data key (JArr [])))"
  shows "distinct (ids_of (dict_get d' key (JArr [])))"
proof -
  from add_record_Some[OF assms(1)] obtain recs where
    r: "dict_get data key (JArr []) = JArr recs"
       "\<not> py_in (dict_get acc ''id'' JNull) (map record_id recs)"
       "d' = dict_set data key (JArr (recs @ [JObj acc]))" by blast
  from py_not_in[OF r(2)] assms(2) r(1) show ?thesis
    by (simp add: r(3) dict_get_dict_set ids_of_def record_id_def)
qed

lemma remove_record_distinct:
  assumes "remove_record key data aid = Inr (Some d')"
    and "distinct (ids_of (dict_get data key (JArr [])))"
  shows "distinct (ids_of (dict_get d' key (JArr [])))"
proof -
  from remove_record_Some[OF assms(1)] obtain recs where
    r: "dict_get data key (JArr []) = JArr recs"
       "d' = dict_set data key (JArr (filter (\<lambda>r. record_id r \<noteq> JStr aid) recs))" by blast
  from assms(2) r(1) show ?thesis
    by (simp add: r(2) dict_get_dict_set ids_of_def distinct_map_filter)
qed

lemma update_record_distinct:
  assumes "update_record key data aid ups = Inr (Some d')" "map_of ups ''id'' = None"
    and "distinct (ids_of (dict_get data key (JArr [])))"
  shows "distinct (ids_of (dict_get d' key (JArr [])))"
proof -
  from update_record_Some[OF assms(1)] obtain pre a post where
    r: "dict_get data key (JArr []) = JArr (pre @ JObj a # post)"
       "d' = dict_set data key (JArr (pre @ JObj (dict_update a ups) # post))" by blast
  have "record_id (JObj (dict_update a ups)) = record_id (JObj a)"
    by (simp add: record_id_def dict_update_keeps_id[OF assms(2)])
  with assms(3) r(1) show ?thesis
    by (simp add: r(2) dict_get_dict_set ids_of_def)
qed

lemma ids_empty: "distinct (ids_of (JArr []))"
  by (simp add: ids_of_def)

lemma rmw_reject:
  assumes "\<not> raises e (OpenR p)" "records fs p key = JArr recs" "list_all is_dict recs"
    and "py_in (dict_get acc ''id'' JNull) (map record_id recs)"
  shows "read_modify_write e p key (\<lambda>data. add_record key data acc) fs = (Inr False, fs)"
proof -
  from assms(4) have "recs \<noteq> []" by (auto simp: py_in_def)
  with assms(2) have ex: "fs p \<noteq> None" using records_absent[of fs p key] by auto
  have d: "dict_get (stored fs p [(key, JArr [])]) key (JArr []) = JArr recs"
    using assms(2) by (simp add: records_stored)
  have "add_record key (stored fs p [(key, JArr [])]) acc = Inr None"
    using add_record_shape[OF d assms(3), of acc] assms(4) by simp
  with assms(1) ex show ?thesis
    by (simp add: read_modify_write_def read_present write_back_other)
qed

lemma rmw_distinct:
  assumes "\<And>data d'. F data = Inr (Some d') \<Longrightarrow> distinct (ids_of (dict_get data key (JArr []))) \<Longrightarrow>
             distinct (ids_of (dict_get d' key (JArr [])))"
    and "distinct (ids_of (records fs p key))"
  shows "distinct (ids_of (records (snd (read_modify_write e p key F fs)) p key))"
  using rmw_invariant[of "\<lambda>v. distinct (ids_of v)" F key fs p e] assms ids_empty by blast

lemma add_account_distinct:
  assumes "distinct (ids_of (records fs (account_cache_path root provider) ''accounts''))"
  shows "distinct (ids_of (records (snd (add_account root e provider account fs))
           (account_cache_path root provider) ''accounts''))"
proof (cases "provider \<in> {''twitter'', ''youtube''} \<and> has_id account")
  case True
  then obtain acc where a: "account = JObj acc" "map_of acc ''id'' \<noteq> None"
    by (auto simp: has_id_def split: json.splits)
  from True have p: "provider \<in> {''twitter'', ''youtube''}" by blast
  show ?thesis
    unfolding a(1) add_account_rmw[OF p a(2)]
    by (rule rmw_distinct[OF add_record_distinct assms])
next
  case False
  then have "snd (add_account root e provider account fs) = fs"
    by (auto simp: add_account_def has_id_def split: json.splits)
  with assms show ?thesis by simp
qed

lemma add_product_distinct:
  assumes "distinct (ids_of (records fs (get_afm_cache_path root) ''products''))"
  shows "distinct (ids_of (records (snd (add_product root e product fs))
           (get_afm_cache_path root) ''products''))"
proof (cases "has_id product")
  case True
  then obtain pr where a: "product = JObj pr" "map_of pr ''id'' \<noteq> None"
    by (auto simp: has_id_def split: json.splits)
  show ?thesis
    unfolding a(1) add_product_rmw[OF a(2)]
    by (rule rmw_distinct[OF add_record_distinct assms])
next
  case False
  then have "snd (add_product root e product fs) = fs"
    by (auto simp: add_product_def has_id_def split: json.splits)
  with assms show ?thesis by simp
qed

lemma remove_account_distinct:
  assumes "distinct (ids_of (records fs (account_cache_path root provider) ''accounts''))"
  shows "distinct (ids_of (records (snd (remove_account root e provider aid fs))
           (account_cache_path root provider) ''accounts''))"
proof (cases "provider \<in> {''twitter'', ''youtube''}")
  case True
  show ?thesis
    unfolding remove_account_rmw[OF True]
    by (rule rmw_distinct[OF remove_record_distinct assms])
next
  case False
  then have "snd (remove_account root e provider aid fs) = fs"
    by (simp add: remove_account_def)
  with assms show ?thesis by simp
qed

lemma update_account_distinct:
  assumes "distinct (ids_of (records fs (account_cache_path root provider) ''accounts''))"
    and "map_of ups ''id'' = None"
  shows "distinct (ids_of (records (snd (update_account root e provider aid ups fs))
           (account_cache_path root provider) ''accounts''))"
proof (cases "provider \<in> {''twitter'', ''youtube''}")
  case True
  show ?thesis
    unfolding update_account_rmw[OF True]
    by (rule rmw_distinct[OF update_record_distinct[OF _ assms(2)] assms(1)])
next
  case False
  then have "snd (update_account root e provider aid ups fs) = fs"
    by (simp add: update_account_def)
  with assms show ?thesis by simp
qed

lemma two_accounts_ids:
  "ids_of (records (twitter_fs (Json two_accounts)) (account_cache_path ''/r'' ''twitter'')
     ''accounts'') = [JStr ''a1'', JStr ''a2'']"
  by (simp add: two_accounts_records ids_of_def record_id_def dict_get_def a1_nickname_X_def
      a2_nickname_Y_def)

section \<open>The properties of the store\<close>

text \<open>
  C1. If a step of the write phase fails, the operation reports failure, the temporary
  file is cleaned up and the previous document remains intact. The code does not keep
  the last part when the step that fails is the rename: \<^verbatim>\<open>_write_cache_file\<close> has
  removed the old document by then. Here \<^verbatim>\<open>add_account("twitter", {"id": "a3"})\<close> runs
  on a document with two accounts while \<^verbatim>\<open>os.rename\<close> raises: the result is
  \<^verbatim>\<open>False\<close>, the temporary file is gone, and so is the document.
\<close>

theorem failed_rename_loses_document:
  "twitter_fs (Json two_accounts) ''/r/.mp/twitter.json'' = Some (File (Json two_accounts)) \<and>
   fst (add_account ''/r'' rename_fails ''twitter'' (JObj [(''id'', JStr ''a3'')])
          (twitter_fs (Json two_accounts))) = Inr False \<and>
   snd (add_account ''/r'' rename_fails ''twitter'' (JObj [(''id'', JStr ''a3'')])
          (twitter_fs (Json two_accounts))) ''/r/.mp/twitter.json.tmp'' = None \<and>
   snd (add_account ''/r'' rename_fails ''twitter'' (JObj [(''id'', JStr ''a3'')])
          (twitter_fs (Json two_accounts))) ''/r/.mp/twitter.json'' = None"
  by (simp add: add_account_def account_cache_path_def get_twitter_cache_path_def
      get_cache_path_def path_join_def read_cache_file_def
      ensure_cache_file_exists_def os_path_exists_def open_load_def twitter_fs_def two_accounts_def
      write_back_def add_record_def dict_get_def py_iter_def py_get_def py_in_def py_append_def
      write_cache_file_def open_dump_def rename_fails_def os_remove_def os_rename_def
      cleanup_temp_def)

text \<open>
  C2, as the code has it. An insert whose id equals (in Python's sense, so in
  particular is) the id of a record of the collection returns \<^verbatim>\<open>False\<close> and leaves the
  file system as it was, for accounts and for products (the document being read
  without failure). If the ids of the records of a collection are pairwise distinct,
  they still are after an insert, after a removal, and after an update whose patch has
  no \<^verbatim>\<open>id\<close> key, whatever the operation returns and whatever fails.
\<close>

theorem unique_ids_kept:
  "(provider \<in> {''twitter'', ''youtube''} \<and> map_of acc ''id'' \<noteq> None \<and>
    \<not> raises e (OpenR (account_cache_path root provider)) \<and>
    records fs (account_cache_path root provider) ''accounts'' = JArr recs \<and>
    list_all is_dict recs \<and> py_in (dict_get acc ''id'' JNull) (map record_id recs) \<longrightarrow>
      add_account root e provider (JObj acc) fs = (Inr False, fs)) \<and>
   (map_of acc ''id'' \<noteq> None \<and> \<not> raises e (OpenR (get_afm_cache_path root)) \<and>
    records fs (get_afm_cache_path root) ''products'' = JArr recs \<and>
    list_all is_dict recs \<and> py_in (dict_get acc ''id'' JNull) (map record_id recs) \<longrightarrow>
      add_product root e (JObj acc) fs = (Inr False, fs)) \<and>
   (distinct (ids_of (records fs (account_cache_path root provider) ''accounts'')) \<longrightarrow>
      distinct (ids_of (records (snd (add_account root e provider account fs))
                  (account_cache_path root provider) ''accounts'')) \<and>
      distinct (ids_of (records (snd (remove_account root e provider account_id fs))
                  (account_cache_path root provider) ''accounts'')) \<and>
      (map_of updates ''id'' = None \<longrightarrow>
         distinct (ids_of (records (snd (update_account root e provider account_id updates fs))
                     (account_cache_path root provider) ''accounts'')))) \<and>
   (distinct (ids_of (records fs (get_afm_cache_path root) ''products'')) \<longrightarrow>
      distinct (ids_of (records (snd (add_product root e account fs))
                  (get_afm_cache_path root) ''products'')))"
proof (intro conjI impI)
  assume a: "provider \<in> {''twitter'', ''youtube''} \<and> map_of acc ''id'' \<noteq> None \<and>
    \<not> raises e (OpenR (account_cache_path root provider)) \<and>
    records fs (account_cache_path root provider) ''accounts'' = JArr recs \<and>
    list_all is_dict recs \<and> py_in (dict_get acc ''id'' JNull) (map record_id recs)"
  then have p: "provider \<in> {''twitter'', ''youtube''}" and i: "map_of acc ''id'' \<noteq> None" by blast+
  from a show "add_account root e provider (JObj acc) fs = (Inr False, fs)"
    unfolding add_account_rmw[OF p i] by (intro rmw_reject) blast+
next
  assume a: "map_of acc ''id'' \<noteq> None \<and> \<not> raises e (OpenR (get_afm_cache_path root)) \<and>
    records fs (get_afm_cache_path root) ''products'' = JArr recs \<and>
    list_all is_dict recs \<and> py_in (dict_get acc ''id'' JNull) (map record_id recs)"
  then have i: "map_of acc ''id'' \<noteq> None" by blast
  from a show "add_product root e (JObj acc) fs = (Inr False, fs)"
    unfolding add_product_rmw[OF i] by (intro rmw_reject) blast+
qed (simp_all add: add_account_distinct remove_account_distinct update_account_distinct
    add_product_distinct)

theorem unique_ids_kept_witness:
  "add_account ''/r'' quiet_env ''twitter'' a1_nickname_X (twitter_fs (Json two_accounts)) =
     (Inr False, twitter_fs (Json two_accounts)) \<and>
   add_product ''/r'' quiet_env a1_nickname_X
       (afm_fs (Json (JObj [(''products'', JArr [a1_nickname_X])]))) =
     (Inr False, afm_fs (Json (JObj [(''products'', JArr [a1_nickname_X])]))) \<and>
   distinct (ids_of (records
     (snd (add_account ''/r'' quiet_env ''twitter'' (JObj [(''id'', JStr ''a3'')])
        (twitter_fs (Json two_accounts))))
     (account_cache_path ''/r'' ''twitter'') ''accounts'')) \<and>
   distinct (ids_of (records
     (snd (remove_account ''/r'' quiet_env ''twitter'' ''a1'' (twitter_fs (Json two_accounts))))
     (account_cache_path ''/r'' ''twitter'') ''accounts'')) \<and>
   distinct (ids_of (records
     (snd (update_account ''/r'' quiet_env ''twitter'' ''a1'' [(''nickname'', JStr ''Z'')]
        (twitter_fs (Json two_accounts))))
     (account_cache_path ''/r'' ''twitter'') ''accounts'')) \<and>
   distinct (ids_of (records
     (snd (add_product ''/r'' quiet_env (JObj [(''id'', JStr ''a3'')])
        (afm_fs (Json (JObj [(''products'', JArr [a1_nickname_X])])))))
     (get_afm_cache_path ''/r'') ''products''))"
proof -
  let ?a = "[(''id'', JStr ''a1''), (''nickname'', JStr ''X'')]"
  let ?afm = "afm_fs (Json (JObj [(''products'', JArr [a1_nickname_X])]))"
  have 1: "''twitter'' \<in> {''twitter'', ''youtube''}"
    "map_of ?a ''id'' \<noteq> None"
    "\<not> raises quiet_env (OpenR (account_cache_path ''/r'' ''twitter''))"
    "\<not> raises quiet_env (OpenR (get_afm_cache_path ''/r''))"
    "list_all is_dict [a1_nickname_X, a2_nickname_Y]" "list_all is_dict [a1_nickname_X]"
    "py_in (dict_get ?a ''id'' JNull) (map record_id [a1_nickname_X, a2_nickname_Y])"
    "py_in (dict_get ?a ''id'' JNull) (map record_id [a1_nickname_X])"
    "map_of [(''nickname'', JStr ''Z'')] ''id'' = None"
    by (simp_all add: quiet_env_def is_dict_def a1_nickname_X_def a2_nickname_Y_def py_in_def
        dict_get_def record_id_def)
  have 2: "records ?afm (get_afm_cache_path ''/r'') ''products'' = JArr [a1_nickname_X]"
    by (simp add: records_def afm_fs_def path_defs)
  have 3: "distinct (ids_of (records ?afm (get_afm_cache_path ''/r'') ''products''))"
    by (simp add: 2 ids_of_def)
  from unique_ids_kept[of "''twitter''" ?a
      quiet_env "''/r''" "twitter_fs (Json two_accounts)" "[a1_nickname_X, a2_nickname_Y]"
      "JObj [(''id'', JStr ''a3'')]" "''a1''" "[(''nickname'', JStr ''Z'')]"]
    unique_ids_kept[of "''twitter''" ?a quiet_env "''/r''" ?afm "[a1_nickname_X]"
      "JObj [(''id'', JStr ''a3'')]" "''a1''" "[(''nickname'', JStr ''Z'')]"]
    1 2 3 two_accounts_records two_accounts_ids
  show ?thesis by (simp add: a1_nickname_X_def)
qed

text \<open>
  C2 as stated includes an update whose patch has an \<^verbatim>\<open>id\<close> key. The update merges the
  whole patch: \<^verbatim>\<open>update_account("twitter", "a1", {"id": "a2"})\<close> on the accounts
  \<^verbatim>\<open>a1\<close> and \<^verbatim>\<open>a2\<close> succeeds and leaves two records with the id \<^verbatim>\<open>a2\<close>.
\<close>

theorem update_duplicates_id:
  "ids_of (records (twitter_fs (Json two_accounts)) ''/r/.mp/twitter.json'' ''accounts'') =
     [JStr ''a1'', JStr ''a2''] \<and>
   fst (update_account ''/r'' quiet_env ''twitter'' ''a1'' [(''id'', JStr ''a2'')]
          (twitter_fs (Json two_accounts))) = Inr True \<and>
   ids_of (records
       (snd (update_account ''/r'' quiet_env ''twitter'' ''a1'' [(''id'', JStr ''a2'')]
          (twitter_fs (Json two_accounts))))
       ''/r/.mp/twitter.json'' ''accounts'') = [JStr ''a2'', JStr ''a2''] \<and>
   \<not> distinct (ids_of (records
       (snd (update_account ''/r'' quiet_env ''twitter'' ''a1'' [(''id'', JStr ''a2'')]
          (twitter_fs (Json two_accounts))))
       ''/r/.mp/twitter.json'' ''accounts''))"
  by (simp add: update_account_def path_defs read_cache_file_def
      ensure_cache_file_exists_def os_path_exists_def open_load_def twitter_fs_def two_accounts_def
      write_back_def update_record_def dict_get_def py_iter_def dict_update_def
      write_cache_file_def open_dump_def quiet_env_def os_remove_def os_rename_def
      cleanup_temp_def records_def ids_of_def record_id_def)

text \<open>
  C3, as the code has it. For a valid collection whose document exists or can be
  created, listing does not raise. It returns the empty sequence when the document is
  absent (it is then created), cannot be read, is not JSON, is not an object or has no
  array field; when the object has the field, it returns the value stored there,
  whatever its type.
\<close>

theorem list_result:
  "(provider \<in> {''twitter'', ''youtube''} \<and> available e fs (account_cache_path root provider) \<longrightarrow>
      fst (get_accounts root e provider fs) =
        Inr (if raises e (OpenR (account_cache_path root provider)) then JArr []
             else records fs (account_cache_path root provider) ''accounts'')) \<and>
   (available e fs (get_afm_cache_path root) \<longrightarrow>
      fst (get_products root e fs) =
        Inr (if raises e (OpenR (get_afm_cache_path root)) then JArr []
             else records fs (get_afm_cache_path root) ''products''))"
  using get_accounts_result get_products_result by blast

theorem list_result_witness:
  "fst (get_accounts ''/r'' quiet_env ''twitter'' (twitter_fs (Garbage ''{accounts: [''))) =
     Inr (JArr []) \<and>
   fst (get_accounts ''/r'' quiet_env ''youtube'' (twitter_fs (Garbage ''{accounts: [''))) =
     Inr (JArr []) \<and>
   fst (get_products ''/r'' quiet_env store_fs) = Inr (JArr [])"
  using list_result[of "''twitter''" quiet_env "twitter_fs (Garbage ''{accounts: ['')" "''/r''"]
    list_result[of "''youtube''" quiet_env "twitter_fs (Garbage ''{accounts: ['')" "''/r''"]
    list_result[of "''twitter''" quiet_env store_fs "''/r''"]
  by (simp add: available_def quiet_env_def records_def twitter_fs_def store_fs_def path_defs)

text \<open>
  C3 as stated says that an array field of the wrong type gives the empty sequence. On
  the document \<^verbatim>\<open>{"accounts": 5}\<close> the list operation returns \<^verbatim>\<open>5\<close>.
\<close>

theorem list_returns_wrong_type:
  "fst (get_accounts ''/r'' quiet_env ''twitter''
          (twitter_fs (Json (JObj [(''accounts'', JNum 5)])))) = Inr (JNum 5) \<and>
   fst (get_accounts ''/r'' quiet_env ''twitter''
          (twitter_fs (Json (JObj [(''accounts'', JNum 5)])))) \<noteq> Inr (JArr [])"
  by (simp add: get_accounts_def path_defs read_cache_file_def ensure_cache_file_exists_def
      os_path_exists_def open_load_def twitter_fs_def quiet_env_def dict_get_def)

text \<open>
  C4. For a collection holding the records \<open>recs\<close>, when no call fails:
  \<^verbatim>\<open>remove_account\<close> returns \<^verbatim>\<open>False\<close> (not found) exactly when no record has the given
  id; the list that follows returns the records of \<open>recs\<close> whose id differs from it, in
  their order, so none with that id; and when no record has the id, the list returns
  \<open>recs\<close> itself and the file system is unchanged if the document existed. The
  hypotheses say that the array field holds a sequence of records (an absent,
  unreadable or field-less document counts as the empty sequence) and that no call of
  the operation fails: a failed write is reported by the same \<^verbatim>\<open>False\<close>.
\<close>

theorem remove_account_correct:
  assumes "provider \<in> {''twitter'', ''youtube''}"
    and "records fs (account_cache_path root provider) ''accounts'' = JArr recs"
    and "list_all is_dict recs"
    and "calls_succeed e fs (account_cache_path root provider)"
  shows "fst (remove_account root e provider account_id fs) =
           Inr (list_ex (\<lambda>r. record_id r = JStr account_id) recs) \<and>
         get_accounts root e provider (snd (remove_account root e provider account_id fs)) =
           (Inr (JArr (filter (\<lambda>r. record_id r \<noteq> JStr account_id) recs)),
            snd (remove_account root e provider account_id fs)) \<and>
         (\<not> list_ex (\<lambda>r. record_id r = JStr account_id) recs \<longrightarrow>
            get_accounts root e provider (snd (remove_account root e provider account_id fs)) =
              (Inr (JArr recs), snd (remove_account root e provider account_id fs)) \<and>
            (fs (account_cache_path root provider) \<noteq> None \<longrightarrow>
               snd (remove_account root e provider account_id fs) = fs))"
proof -
  let ?p = "account_cache_path root provider"
  let ?data = "stored fs ?p [(''accounts'', JArr [])]"
  let ?kept = "filter (\<lambda>r. record_id r \<noteq> JStr account_id) recs"
  let ?hit = "list_ex (\<lambda>r. record_id r = JStr account_id) recs"
  have dn: "dirname ?p \<noteq> ?p" by (rule doc_dirname_neq[OF account_path_doc])
  have q: "\<forall>s. \<not> raises e s" using assms(4) by (simp add: calls_succeed_def)
  have d: "dict_get ?data ''accounts'' (JArr []) = JArr recs"
    using assms(2) by (simp add: records_stored)
  have h: "?hit \<longrightarrow> recs \<noteq> []"
    by (cases recs) simp_all
  have m: "\<not> ?hit \<longrightarrow> ?kept = recs" by (simp add: keep_unmatched)
  from rmw_quiet_result[of e fs ?p "''accounts''" recs
      "\<lambda>data. remove_record ''accounts'' data account_id" ?hit ?kept,
      OF assms(4) dn assms(2) remove_record_shape[OF d assms(3)] h m]
  obtain fs' where
    w: "read_modify_write e ?p ''accounts''
          (\<lambda>data. remove_record ''accounts'' data account_id) fs = (Inr ?hit, fs')"
       "fs' ?p \<noteq> None" "records fs' ?p ''accounts'' = JArr ?kept"
       "\<not> ?hit \<and> fs ?p \<noteq> None \<longrightarrow> fs' = fs"
    by (elim exE conjE) (rule that)
  have r: "remove_account root e provider account_id fs = (Inr ?hit, fs')"
    unfolding remove_account_rmw[OF assms(1)] by (rule w(1))
  have g: "get_accounts root e provider fs' = (Inr (JArr ?kept), fs')"
    unfolding get_accounts_quiet[of provider e fs' root, OF assms(1) q w(2)] w(3) ..
  show ?thesis
    unfolding r fst_conv snd_conv
  proof (intro conjI impI)
    show "Inr ?hit = Inr ?hit" ..
    show "get_accounts root e provider fs' = (Inr (JArr ?kept), fs')" by (rule g)
    show "get_accounts root e provider fs' = (Inr (JArr recs), fs')" if "\<not> ?hit"
      using that m g by simp
    show "fs' = fs" if "\<not> ?hit" "fs ?p \<noteq> None"
      using that w(4) by blast
  qed
qed

theorem remove_account_correct_witness:
  "fst (remove_account ''/r'' quiet_env ''twitter'' ''a1'' (twitter_fs (Json two_accounts))) =
     Inr True \<and>
   get_accounts ''/r'' quiet_env ''twitter''
       (snd (remove_account ''/r'' quiet_env ''twitter'' ''a1'' (twitter_fs (Json two_accounts)))) =
     (Inr (JArr [a2_nickname_Y]),
      snd (remove_account ''/r'' quiet_env ''twitter'' ''a1'' (twitter_fs (Json two_accounts)))) \<and>
   fst (remove_account ''/r'' quiet_env ''twitter'' ''a9'' (twitter_fs (Json two_accounts))) =
     Inr False \<and>
   get_accounts ''/r'' quiet_env ''twitter''
       (snd (remove_account ''/r'' quiet_env ''twitter'' ''a9'' (twitter_fs (Json two_accounts)))) =
     (Inr (JArr [a1_nickname_X, a2_nickname_Y]),
      snd (remove_account ''/r'' quiet_env ''twitter'' ''a9'' (twitter_fs (Json two_accounts))))"
proof -
  have p: "''twitter'' \<in> {''twitter'', ''youtube''}" by simp
  have d: "list_all is_dict [a1_nickname_X, a2_nickname_Y]"
    by (simp add: is_dict_def a1_nickname_X_def a2_nickname_Y_def)
  have i: "record_id a1_nickname_X = JStr ''a1''" "record_id a2_nickname_Y = JStr ''a2''"
    by (simp_all add: record_id_def dict_get_def a1_nickname_X_def a2_nickname_Y_def)
  from remove_account_correct[OF p two_accounts_records d two_accounts_calls_succeed, of "''a1''"]
    remove_account_correct[OF p two_accounts_records d two_accounts_calls_succeed, of "''a9''"]
  show ?thesis by (simp add: i)
qed

text \<open>
  C5. For a collection holding the records \<open>recs\<close>, when no call fails:
  \<^verbatim>\<open>update_account\<close> returns \<^verbatim>\<open>False\<close> (not found) exactly when no record has the given
  id, and then the list that follows returns \<open>recs\<close> and the file system is unchanged if
  the document existed. When \<open>recs\<close> is \<open>pre\<close>, then a record \<open>a\<close> with the id, then
  \<open>post\<close>, with no record of \<open>pre\<close> having the id, the list that follows returns \<open>pre\<close>,
  the record \<open>a\<close> merged with the patch, and \<open>post\<close>: only the first record with the id
  changes. The merged record maps every key of the patch to the patch's value and
  every other key to what \<open>a\<close> had (the patch being a dictionary, its keys are
  distinct). The hypotheses are those of the removal.
\<close>

theorem update_account_correct:
  assumes "provider \<in> {''twitter'', ''youtube''}"
    and "records fs (account_cache_path root provider) ''accounts'' = JArr recs"
    and "list_all is_dict recs"
    and "calls_succeed e fs (account_cache_path root provider)"
  shows "fst (update_account root e provider account_id updates fs) =
           Inr (list_ex (\<lambda>r. record_id r = JStr account_id) recs) \<and>
         (\<not> list_ex (\<lambda>r. record_id r = JStr account_id) recs \<longrightarrow>
            get_accounts root e provider
                (snd (update_account root e provider account_id updates fs)) =
              (Inr (JArr recs), snd (update_account root e provider account_id updates fs)) \<and>
            (fs (account_cache_path root provider) \<noteq> None \<longrightarrow>
               snd (update_account root e provider account_id updates fs) = fs)) \<and>
         (\<forall>pre a post.
            recs = pre @ JObj a # post \<and>
            \<not> list_ex (\<lambda>r. record_id r = JStr account_id) pre \<and>
            dict_get a ''id'' JNull = JStr account_id \<longrightarrow>
            get_accounts root e provider
                (snd (update_account root e provider account_id updates fs)) =
              (Inr (JArr (pre @ JObj (dict_update a updates) # post)),
               snd (update_account root e provider account_id updates fs))) \<and>
         (\<forall>a. distinct (map fst updates) \<longrightarrow>
            map_of (dict_update a updates) = map_of a ++ map_of updates)"
proof (rule conjI[OF _ conjI[OF _ conjI]]; (intro allI impI)?)
  let ?hit = "list_ex (\<lambda>r. record_id r = JStr account_id) recs"
  show "fst (update_account root e provider account_id updates fs) = Inr ?hit"
  proof (cases ?hit)
    case True
    from first_match[OF True assms(3)] obtain pre a post where
      s: "recs = pre @ JObj a # post" "\<not> list_ex (\<lambda>r. record_id r = JStr account_id) pre"
         "dict_get a ''id'' JNull = JStr account_id" by blast
    from assms(3) s(1) have "list_all is_dict pre" by simp
    from update_account_hit[of provider fs root pre a post e account_id updates,
        OF assms(1) assms(2)[unfolded s(1)] this assms(4) s(2,3)]
    show ?thesis using True by auto
  next
    case False
    from update_account_miss[of provider fs root recs e account_id updates, OF assms False] show ?thesis using False by auto
  qed
next
  assume "\<not> list_ex (\<lambda>r. record_id r = JStr account_id) recs"
  from update_account_miss[of provider fs root recs e account_id updates, OF assms this]
  show "get_accounts root e provider (snd (update_account root e provider account_id updates fs)) =
          (Inr (JArr recs), snd (update_account root e provider account_id updates fs)) \<and>
        (fs (account_cache_path root provider) \<noteq> None \<longrightarrow>
           snd (update_account root e provider account_id updates fs) = fs)"
    by auto
next
  fix pre a post
  assume s: "recs = pre @ JObj a # post \<and>
            \<not> list_ex (\<lambda>r. record_id r = JStr account_id) pre \<and>
            dict_get a ''id'' JNull = JStr account_id"
  with assms(3) have "list_all is_dict pre" by simp
  from update_account_hit[of provider fs root pre a post e account_id updates, OF assms(1) _ this assms(4)] s assms(2)
  show "get_accounts root e provider (snd (update_account root e provider account_id updates fs)) =
          (Inr (JArr (pre @ JObj (dict_update a updates) # post)),
           snd (update_account root e provider account_id updates fs))"
    by auto
next
  fix a assume "distinct (map fst updates)"
  then show "map_of (dict_update a updates) = map_of a ++ map_of updates" by (rule merge_patch)
qed

theorem update_account_correct_witness:
  "fst (update_account ''/r'' quiet_env ''twitter'' ''a1''
          [(''nickname'', JStr ''Z''), (''topic'', JStr ''Tech'')]
          (twitter_fs (Json two_accounts))) = Inr True \<and>
   get_accounts ''/r'' quiet_env ''twitter''
       (snd (update_account ''/r'' quiet_env ''twitter'' ''a1''
          [(''nickname'', JStr ''Z''), (''topic'', JStr ''Tech'')]
          (twitter_fs (Json two_accounts)))) =
     (Inr (JArr [JObj [(''id'', JStr ''a1''), (''nickname'', JStr ''Z''), (''topic'', JStr ''Tech'')],
                 a2_nickname_Y]),
      snd (update_account ''/r'' quiet_env ''twitter'' ''a1''
          [(''nickname'', JStr ''Z''), (''topic'', JStr ''Tech'')]
          (twitter_fs (Json two_accounts)))) \<and>
   fst (update_account ''/r'' quiet_env ''twitter'' ''a9'' [(''nickname'', JStr ''Z'')]
          (twitter_fs (Json two_accounts))) = Inr False \<and>
   get_accounts ''/r'' quiet_env ''twitter''
       (snd (update_account ''/r'' quiet_env ''twitter'' ''a9'' [(''nickname'', JStr ''Z'')]
          (twitter_fs (Json two_accounts)))) =
     (Inr (JArr [a1_nickname_X, a2_nickname_Y]),
      snd (update_account ''/r'' quiet_env ''twitter'' ''a9'' [(''nickname'', JStr ''Z'')]
          (twitter_fs (Json two_accounts))))"
proof -
  let ?ups = "[(''nickname'', JStr ''Z''), (''topic'', JStr ''Tech'')]"
  let ?a = "[(''id'', JStr ''a1''), (''nickname'', JStr ''X'')]"
  have p: "''twitter'' \<in> {''twitter'', ''youtube''}" by simp
  have d: "list_all is_dict [a1_nickname_X, a2_nickname_Y]"
    by (simp add: is_dict_def a1_nickname_X_def a2_nickname_Y_def)
  have i: "record_id a1_nickname_X = JStr ''a1''" "record_id a2_nickname_Y = JStr ''a2''"
    by (simp_all add: record_id_def dict_get_def a1_nickname_X_def a2_nickname_Y_def)
  note hit = update_account_correct[OF p two_accounts_records d two_accounts_calls_succeed,
      of "''a1''" ?ups]
  note miss = update_account_correct[OF p two_accounts_records d two_accounts_calls_succeed,
      of "''a9''" "[(''nickname'', JStr ''Z'')]"]
  have s: "[a1_nickname_X, a2_nickname_Y] = [] @ JObj ?a # [a2_nickname_Y] \<and>
     \<not> list_ex (\<lambda>r. record_id r = JStr ''a1'') [] \<and> dict_get ?a ''id'' JNull = JStr ''a1''"
    by (simp add: a1_nickname_X_def dict_get_def)
  from hit have "\<forall>pre a post.
            [a1_nickname_X, a2_nickname_Y] = pre @ JObj a # post \<and>
            \<not> list_ex (\<lambda>r. record_id r = JStr ''a1'') pre \<and>
            dict_get a ''id'' JNull = JStr ''a1'' \<longrightarrow>
            get_accounts ''/r'' quiet_env ''twitter''
                (snd (update_account ''/r'' quiet_env ''twitter'' ''a1'' ?ups
                  (twitter_fs (Json two_accounts)))) =
              (Inr (JArr (pre @ JObj (dict_update a ?ups) # post)),
               snd (update_account ''/r'' quiet_env ''twitter'' ''a1'' ?ups
                  (twitter_fs (Json two_accounts))))"
    by (elim conjE)
  from this[rule_format, OF s] have g: "get_accounts ''/r'' quiet_env ''twitter''
                (snd (update_account ''/r'' quiet_env ''twitter'' ''a1'' ?ups
                  (twitter_fs (Json two_accounts)))) =
              (Inr (JArr [JObj [(''id'', JStr ''a1''), (''nickname'', JStr ''Z''), (''topic'', JStr ''Tech'')],
                 a2_nickname_Y]),
               snd (update_account ''/r'' quiet_env ''twitter'' ''a1'' ?ups
                  (twitter_fs (Json two_accounts))))"
    by (simp add: dict_update_def)
  from hit miss g show ?thesis by (simp add: i)
qed

text \<open>
  C6. An insert whose record has no \<^verbatim>\<open>id\<close> key (or is not a dictionary) raises
  \<^verbatim>\<open>ValueError\<close> and changes nothing, for accounts and for products. An insert whose
  record has an \<^verbatim>\<open>id\<close>, into a valid collection, raises nothing and returns a boolean
  (\<^verbatim>\<open>True\<close> for success, \<^verbatim>\<open>False\<close> for a rejected duplicate or a failed write). This is
  stated for a collection in normal condition: its document exists or can be created,
  and its array field holds a sequence of records (as it does for a document that is
  absent, unreadable or without the field, which count as empty). The \<^verbatim>\<open>id\<close> need not
  be non-empty.
\<close>

theorem insert_validation:
  "(\<not> has_id account \<longrightarrow>
      add_account root e provider account fs = (Inl ValueError, fs) \<and>
      add_product root e account fs = (Inl ValueError, fs)) \<and>
   (has_id account \<and> provider \<in> {''twitter'', ''youtube''} \<and>
    available e fs (account_cache_path root provider) \<and>
    record_list (records fs (account_cache_path root provider) ''accounts'') \<longrightarrow>
      (\<exists>b. fst (add_account root e provider account fs) = Inr b)) \<and>
   (has_id account \<and> available e fs (get_afm_cache_path root) \<and>
    record_list (records fs (get_afm_cache_path root) ''products'') \<longrightarrow>
      (\<exists>b. fst (add_product root e account fs) = Inr b))"
proof (intro conjI impI)
  assume "\<not> has_id account"
  then show "add_account root e provider account fs = (Inl ValueError, fs)"
    by (auto simp: add_account_def has_id_def split: json.splits)
next
  assume "\<not> has_id account"
  then show "add_product root e account fs = (Inl ValueError, fs)"
    by (auto simp: add_product_def has_id_def split: json.splits)
next
  assume a: "has_id account \<and> provider \<in> {''twitter'', ''youtube''} \<and>
    available e fs (account_cache_path root provider) \<and>
    record_list (records fs (account_cache_path root provider) ''accounts'')"
  then obtain acc where acc: "account = JObj acc" "map_of acc ''id'' \<noteq> None"
    by (auto simp: has_id_def split: json.splits)
  from a have p: "provider \<in> {''twitter'', ''youtube''}" by blast
  from rmw_add_no_raise[OF _ doc_dirname_neq[OF account_path_doc], of e fs root provider "''accounts''" acc] a
  show "\<exists>b. fst (add_account root e provider account fs) = Inr b"
    by (simp only: acc(1) add_account_rmw[OF p acc(2)])
next
  assume a: "has_id account \<and> available e fs (get_afm_cache_path root) \<and>
    record_list (records fs (get_afm_cache_path root) ''products'')"
  then obtain acc where acc: "account = JObj acc" "map_of acc ''id'' \<noteq> None"
    by (auto simp: has_id_def split: json.splits)
  from rmw_add_no_raise[OF _ doc_dirname_neq, of e fs "get_afm_cache_path root" root "''products''" acc] a
  show "\<exists>b. fst (add_product root e account fs) = Inr b"
    by (simp add: acc(1) add_product_rmw[OF acc(2)])
qed

theorem insert_validation_witness:
  "add_account ''/r'' quiet_env ''twitter'' (JObj [(''nickname'', JStr ''No ID'')]) store_fs =
     (Inl ValueError, store_fs) \<and>
   add_product ''/r'' quiet_env (JObj [(''nickname'', JStr ''No ID'')]) store_fs =
     (Inl ValueError, store_fs) \<and>
   (\<exists>b. fst (add_account ''/r'' quiet_env ''twitter'' a1_nickname_X store_fs) = Inr b) \<and>
   (\<exists>b. fst (add_product ''/r'' quiet_env a1_nickname_X store_fs) = Inr b)"
proof -
  have 1: "\<not> has_id (JObj [(''nickname'', JStr ''No ID'')])" "has_id a1_nickname_X"
    by (simp_all add: has_id_def a1_nickname_X_def)
  have 2: "available quiet_env store_fs (account_cache_path ''/r'' ''twitter'')"
    "available quiet_env store_fs (get_afm_cache_path ''/r'')"
    by (simp_all add: available_def quiet_env_def)
  have 3: "record_list (records store_fs (account_cache_path ''/r'' ''twitter'') ''accounts'')"
    "record_list (records store_fs (get_afm_cache_path ''/r'') ''products'')"
    by (simp_all add: record_list_def records_def store_fs_def two_accounts_def path_defs is_dict_def)
  from insert_validation[of "JObj [(''nickname'', JStr ''No ID'')]" "''/r''" quiet_env "''twitter''" store_fs]
    insert_validation[of a1_nickname_X "''/r''" quiet_env "''twitter''" store_fs] 1 2 3
  show ?thesis by simp
qed

text \<open>
  C7. Every operation signals a validation error for a collection name that is not
  recognised. \<^verbatim>\<open>clear_cache\<close> does not: with the name \<^verbatim>\<open>instagram\<close> none of its
  three blocks runs, and it returns \<^verbatim>\<open>True\<close> with the file system untouched.
\<close>

theorem clear_cache_accepts_unknown_provider:
  "clear_cache root e (Some ''instagram'') fs = (True, fs)"
  by (simp add: clear_cache_def)

text \<open>
  C8. When an insert succeeds, the collection held a sequence \<open>recs\<close> of records before
  it, and the list that follows returns \<open>recs\<close> followed by the inserted record, with
  every field as it was given; the list leaves the file system as it is. The reads of
  the insert and of the list are taken not to fail: a read that fails gives the default
  structure.
\<close>

theorem insert_then_list:
  "(add_account root e provider account fs = (Inr True, fs') \<and>
    \<not> raises e (OpenR (account_cache_path root provider)) \<and>
    \<not> raises e' (OpenR (account_cache_path root provider)) \<longrightarrow>
      (\<exists>recs. records fs (account_cache_path root provider) ''accounts'' = JArr recs \<and>
         get_accounts root e' provider fs' = (Inr (JArr (recs @ [account])), fs'))) \<and>
   (add_product root e product fs = (Inr True, fs') \<and>
    \<not> raises e (OpenR (get_afm_cache_path root)) \<and>
    \<not> raises e' (OpenR (get_afm_cache_path root)) \<longrightarrow>
      (\<exists>recs. records fs (get_afm_cache_path root) ''products'' = JArr recs \<and>
         get_products root e' fs' = (Inr (JArr (recs @ [product])), fs')))"
  using add_account_then_list add_product_then_list by blast

theorem insert_then_list_witness:
  "add_account ''/r'' quiet_env ''twitter'' a1_nickname_X Map.empty =
     (Inr True, twitter_fs (Json (JObj [(''accounts'', JArr [a1_nickname_X])]))) \<and>
   get_accounts ''/r'' quiet_env ''twitter''
       (twitter_fs (Json (JObj [(''accounts'', JArr [a1_nickname_X])]))) =
     (Inr (JArr [a1_nickname_X]), twitter_fs (Json (JObj [(''accounts'', JArr [a1_nickname_X])]))) \<and>
   add_product ''/r'' quiet_env a1_nickname_X Map.empty =
     (Inr True, afm_fs (Json (JObj [(''products'', JArr [a1_nickname_X])]))) \<and>
   get_products ''/r'' quiet_env (afm_fs (Json (JObj [(''products'', JArr [a1_nickname_X])]))) =
     (Inr (JArr [a1_nickname_X]), afm_fs (Json (JObj [(''products'', JArr [a1_nickname_X])])))"
proof -
  have q: "\<not> raises quiet_env (OpenR (account_cache_path ''/r'' ''twitter''))"
    "\<not> raises quiet_env (OpenR (get_afm_cache_path ''/r''))"
    by (simp_all add: quiet_env_def)
  have r: "records Map.empty (account_cache_path ''/r'' ''twitter'') ''accounts'' = JArr []"
    "records Map.empty (get_afm_cache_path ''/r'') ''products'' = JArr []"
    by (simp_all add: records_def)
  from insert_then_list[of "''/r''" quiet_env "''twitter''" a1_nickname_X Map.empty
      "twitter_fs (Json (JObj [(''accounts'', JArr [a1_nickname_X])]))" quiet_env]
    insert_then_list[of "''/r''" quiet_env "''twitter''" _ Map.empty
      "afm_fs (Json (JObj [(''products'', JArr [a1_nickname_X])]))" quiet_env a1_nickname_X]
    eval_add_a1 eval_add_p1 q r
  show ?thesis by simp
qed

text \<open>
  C9. When the backing document is present but is not JSON, or is JSON that is not an
  object, the read gives the default structure and leaves the file system, and so the
  bytes of the file, as they were.
\<close>

theorem read_keeps_corrupt_file:
  assumes "fs p = Some (File c)" and "\<not> holds_dict c"
  shows "read_cache_file e p default_structure fs = (Inr default_structure, fs)"
proof -
  from assms(1) have "fs p \<noteq> None" by simp
  moreover from assms have "stored fs p default_structure = default_structure"
    by (simp add: stored_def holds_dict_def split: content.splits json.splits)
  ultimately show ?thesis by (simp add: read_present)
qed

theorem read_keeps_corrupt_file_witness:
  "read_cache_file rename_fails ''/r/.mp/twitter.json'' [(''accounts'', JArr [])]
     (twitter_fs (Garbage ''{accounts: ['')) =
     (Inr [(''accounts'', JArr [])], twitter_fs (Garbage ''{accounts: [''))
   \<and> read_cache_file quiet_env ''/r/.mp/twitter.json'' [(''accounts'', JArr [])]
     (twitter_fs (Json (JArr [JNum 1]))) =
     (Inr [(''accounts'', JArr [])], twitter_fs (Json (JArr [JNum 1])))"
  using read_keeps_corrupt_file[of "twitter_fs (Garbage ''{accounts: ['')"
      "''/r/.mp/twitter.json''" "Garbage ''{accounts: [''" rename_fails "[(''accounts'', JArr [])]"]
    read_keeps_corrupt_file[of "twitter_fs (Json (JArr [JNum 1]))"
      "''/r/.mp/twitter.json''" "Json (JArr [JNum 1])" quiet_env "[(''accounts'', JArr [])]"]
  by (simp add: twitter_fs_def holds_dict_def)

text \<open>
  C10. An operation on one collection leaves the documents of the other collections as
  they were, whatever fails: for \<open>q\<close> one of the three document paths, the account
  operations do not change \<open>q\<close> unless it is the provider's document, the product
  operations do not change \<open>q\<close> unless it is \<^verbatim>\<open>afm.json\<close>, and \<^verbatim>\<open>clear_cache\<close> with a
  provider does not change \<open>q\<close> unless it is the document of that provider. When
  \<^verbatim>\<open>clear_cache\<close> without a provider returns \<^verbatim>\<open>True\<close>, none of the three documents is
  left.
\<close>

theorem store_isolation:
  assumes "q \<in> {get_twitter_cache_path root, get_youtube_cache_path root, get_afm_cache_path root}"
  shows "(q \<noteq> account_cache_path root provider \<longrightarrow>
            snd (get_accounts root e provider fs) q = fs q \<and>
            snd (add_account root e provider account fs) q = fs q \<and>
            snd (remove_account root e provider account_id fs) q = fs q \<and>
            snd (update_account root e provider account_id updates fs) q = fs q) \<and>
         (q \<noteq> get_afm_cache_path root \<longrightarrow>
            snd (get_products root e fs) q = fs q \<and>
            snd (add_product root e product fs) q = fs q) \<and>
         ((provider = ''twitter'' \<longrightarrow> q \<noteq> get_twitter_cache_path root) \<and>
          (provider = ''youtube'' \<longrightarrow> q \<noteq> get_youtube_cache_path root) \<and>
          (provider = ''afm'' \<longrightarrow> q \<noteq> get_afm_cache_path root) \<longrightarrow>
            snd (clear_cache root e (Some provider) fs) q = fs q) \<and>
         (fst (clear_cache root e None fs) \<longrightarrow> snd (clear_cache root e None fs) q = None)"
proof (intro conjI impI)
  assume "fst (clear_cache root e None fs)"
  then have "clear_cache root e None fs = (True, snd (clear_cache root e None fs))"
    by (cases "clear_cache root e None fs") simp
  from clear_cache_all[OF this] assms show "snd (clear_cache root e None fs) q = None" by auto
qed (simp_all add: get_accounts_frame[OF assms] add_account_frame[OF assms]
    remove_account_frame[OF assms] update_account_frame[OF assms] get_products_frame[OF assms]
    add_product_frame[OF assms] clear_cache_frame)

theorem store_isolation_witness:
  "snd (get_accounts ''/r'' quiet_env ''twitter'' store_fs) ''/r/.mp/youtube.json'' =
     Some (File (Json two_accounts)) \<and>
   snd (add_account ''/r'' quiet_env ''twitter'' (JObj [(''id'', JStr ''a3'')]) store_fs)
     ''/r/.mp/youtube.json'' = Some (File (Json two_accounts)) \<and>
   snd (remove_account ''/r'' quiet_env ''twitter'' ''a1'' store_fs) ''/r/.mp/youtube.json'' =
     Some (File (Json two_accounts)) \<and>
   snd (update_account ''/r'' quiet_env ''twitter'' ''a1'' [(''nickname'', JStr ''Z'')] store_fs)
     ''/r/.mp/youtube.json'' = Some (File (Json two_accounts)) \<and>
   snd (get_products ''/r'' quiet_env store_fs) ''/r/.mp/youtube.json'' =
     Some (File (Json two_accounts)) \<and>
   snd (add_product ''/r'' quiet_env (JObj [(''id'', JStr ''p1'')]) store_fs)
     ''/r/.mp/youtube.json'' = Some (File (Json two_accounts)) \<and>
   snd (clear_cache ''/r'' quiet_env (Some ''twitter'') store_fs) ''/r/.mp/youtube.json'' =
     Some (File (Json two_accounts)) \<and>
   fst (clear_cache ''/r'' quiet_env None store_fs) \<and>
   snd (clear_cache ''/r'' quiet_env None store_fs) ''/r/.mp/youtube.json'' = None"
proof -
  have c: "fst (clear_cache ''/r'' quiet_env None store_fs)"
    by (simp add: clear_cache_def clear_one_def os_path_exists_def os_remove_def path_defs
        store_fs_def quiet_env_def)
  have y: "store_fs ''/r/.mp/youtube.json'' = Some (File (Json two_accounts))"
    by (simp add: store_fs_def)
  have q: "''/r/.mp/youtube.json'' \<in> {get_twitter_cache_path ''/r'', get_youtube_cache_path ''/r'',
      get_afm_cache_path ''/r''}"
    by (simp add: path_defs)
  have n: "''/r/.mp/youtube.json'' \<noteq> account_cache_path ''/r'' ''twitter''"
    "''/r/.mp/youtube.json'' \<noteq> get_afm_cache_path ''/r''"
    "''/r/.mp/youtube.json'' \<noteq> get_twitter_cache_path ''/r''"
    by (simp_all add: path_defs)
  from store_isolation[OF q, of "''twitter''" quiet_env store_fs "JObj [(''id'', JStr ''a3'')]"
      "''a1''" "[(''nickname'', JStr ''Z'')]" "JObj [(''id'', JStr ''p1'')]"] c y n
  show ?thesis by simp
qed

end
